theory Spec2Isabelle
  imports Main "HOL-Library.AList"
begin

section \<open>Characters and character classes\<close>

text \<open>
  The program is \<^verbatim>\<open>datamine.py\<close>: a parser for Godot scene files (class \<^verbatim>\<open>TSCN\<close>),
  a path query on the parsed resources (\<^verbatim>\<open>TSCNResource.query\<close>) and a selector
  language (\<^verbatim>\<open>Selector.parse\<close>, \<^verbatim>\<open>TSCN.select\<close>).  Text is modelled as a list of
  ASCII characters; the classes \<^verbatim>\<open>\w\<close>, \<^verbatim>\<open>\s\<close> and \<^verbatim>\<open>str.isnumeric\<close> are the ASCII
  parts of Python's Unicode classes.
\<close>

definition nl :: char where "nl = CHR 0x0A"
definition dq :: char where "dq = CHR 0x22"
definition bsl :: char where "bsl = CHR 0x5C"

definition is_digit :: "char \<Rightarrow> bool" where
  "is_digit c = (let n = of_char c :: nat in 48 \<le> n \<and> n \<le> 57)"

definition is_word :: "char \<Rightarrow> bool" where
  "is_word c = (let n = of_char c :: nat in
     (48 \<le> n \<and> n \<le> 57) \<or> (65 \<le> n \<and> n \<le> 90) \<or> (97 \<le> n \<and> n \<le> 122) \<or> n = 95)"

text \<open>Python's \<^verbatim>\<open>\s\<close> on ASCII: tab, LF, VT, FF, CR, the separators 0x1C..0x1F, space.\<close>

definition is_space :: "char \<Rightarrow> bool" where
  "is_space c = (let n = of_char c :: nat in (9 \<le> n \<and> n \<le> 13) \<or> (28 \<le> n \<and> n \<le> 32))"

datatype citem = CWord | CSpace | CChar char

fun in_item :: "citem \<Rightarrow> char \<Rightarrow> bool" where
  "in_item CWord c = is_word c"
| "in_item CSpace c = is_space c"
| "in_item (CChar d) c = (c = d)"

text \<open>A bracket expression \<^verbatim>\<open>[...]\<close> is \<open>Pos\<close>, a negated one \<^verbatim>\<open>[^...]\<close> is \<open>Neg\<close>.\<close>

datatype cclass = Pos "citem list" | Neg "citem list"

fun in_class :: "cclass \<Rightarrow> char \<Rightarrow> bool" where
  "in_class (Pos is) c = list_ex (\<lambda>i. in_item i c) is"
| "in_class (Neg is) c = (\<not> list_ex (\<lambda>i. in_item i c) is)"

section \<open>A backtracking matcher for the regular expressions of the program\<close>

text \<open>
  The program recognises its input with Python's \<^verbatim>\<open>re\<close> module only.  The matcher below
  is a backtracking matcher in continuation-passing style with the priorities of
  \<^verbatim>\<open>re\<close>: the left alternative first, a greedy repetition tries one more iteration
  first, a lazy one tries to stop first.  The flag of \<open>Bol\<close> and \<open>Eol\<close> is
  \<^verbatim>\<open>re.MULTILINE\<close>; \<^verbatim>\<open>re.DOTALL\<close> is the choice between \<open>dot\<close> and \<open>dotall\<close>.
\<close>

datatype regex =
    Sym cclass
  | Bol bool
  | Eol bool
  | Cat regex regex
  | Alt regex regex
  | Rep bool regex
  | Opt regex
  | Grp nat regex
  | Ahead regex
  | Eps

record mstate =
  prev :: "char option"
  rest :: string
  grp :: "(nat \<times> string) list"

primrec rep_greedy :: "nat \<Rightarrow> ((mstate \<Rightarrow> mstate option) \<Rightarrow> mstate \<Rightarrow> mstate option)
    \<Rightarrow> (mstate \<Rightarrow> mstate option) \<Rightarrow> mstate \<Rightarrow> mstate option" where
  "rep_greedy 0 f k st = k st"
| "rep_greedy (Suc n) f k st =
     (case f (\<lambda>st'. if length (rest st') < length (rest st) then rep_greedy n f k st' else None) st of
        Some y \<Rightarrow> Some y
      | None \<Rightarrow> k st)"

primrec rep_lazy :: "nat \<Rightarrow> ((mstate \<Rightarrow> mstate option) \<Rightarrow> mstate \<Rightarrow> mstate option)
    \<Rightarrow> (mstate \<Rightarrow> mstate option) \<Rightarrow> mstate \<Rightarrow> mstate option" where
  "rep_lazy 0 f k st = k st"
| "rep_lazy (Suc n) f k st =
     (case k st of
        Some y \<Rightarrow> Some y
      | None \<Rightarrow> f (\<lambda>st'. if length (rest st') < length (rest st) then rep_lazy n f k st' else None) st)"

text \<open>
  Every iteration of a repetition consumes at least one character, so the number of
  characters left bounds the number of iterations: the repetitions recurse on that
  bound.
\<close>

primrec rm :: "regex \<Rightarrow> (mstate \<Rightarrow> mstate option) \<Rightarrow> mstate \<Rightarrow> mstate option" where
  "rm (Sym c) k st =
     (case rest st of
        [] \<Rightarrow> None
      | x # xs \<Rightarrow> if in_class c x then k (st\<lparr>prev := Some x, rest := xs\<rparr>) else None)"
| "rm (Bol ml) k st =
     (if prev st = None \<or> (ml \<and> prev st = Some nl) then k st else None)"
| "rm (Eol ml) k st =
     (if rest st = [] \<or> (ml \<and> hd (rest st) = nl) \<or> (\<not> ml \<and> rest st = [nl]) then k st else None)"
| "rm (Cat a b) k st = rm a (rm b k) st"
| "rm (Alt a b) k st = (case rm a k st of Some y \<Rightarrow> Some y | None \<Rightarrow> rm b k st)"
| "rm (Rep greedy a) k st =
     (if greedy then rep_greedy (length (rest st)) (rm a) k st
      else rep_lazy (length (rest st)) (rm a) k st)"
| "rm (Opt a) k st = (case rm a k st of Some y \<Rightarrow> Some y | None \<Rightarrow> k st)"
| "rm (Grp n a) k st =
     rm a (\<lambda>st'. k (st'\<lparr>grp := AList.update n
            (take (length (rest st) - length (rest st')) (rest st)) (grp st')\<rparr>)) st"
| "rm (Ahead a) k st = (case rm a Some st of Some y \<Rightarrow> k st | None \<Rightarrow> None)"
| "rm Eps k st = k st"

definition plus :: "regex \<Rightarrow> regex" where
  "plus a = Cat a (Rep True a)"

definition plus_lazy :: "regex \<Rightarrow> regex" where
  "plus_lazy a = Cat a (Rep False a)"

definition cats :: "regex list \<Rightarrow> regex" where
  "cats rs = foldr Cat rs Eps"

definition lit :: "char \<Rightarrow> regex" where
  "lit c = Sym (Pos [CChar c])"

definition dot :: regex where
  "dot = Sym (Neg [CChar nl])"

definition dotall :: regex where
  "dotall = Sym (Neg [])"

definition group :: "mstate \<Rightarrow> nat \<Rightarrow> string" where
  "group st n = (case map_of (grp st) n of Some s \<Rightarrow> s | None \<Rightarrow> [])"

definition start :: "string \<Rightarrow> mstate" where
  "start s = \<lparr>prev = None, rest = s, grp = []\<rparr>"

text \<open>\<^verbatim>\<open>re.match(r, s)\<close>: a match at position 0; \<open>None\<close> when there is none.\<close>

definition re_match :: "regex \<Rightarrow> string \<Rightarrow> mstate option" where
  "re_match r s = rm r Some (start s)"

text \<open>
  \<^verbatim>\<open>re.findall(r, s)\<close>: the leftmost match from the current position, then on from its
  end.  The matches come as final matcher states; \<open>group\<close> reads a group of the tuple
  (an unmatched group is the empty string, as in \<^verbatim>\<open>findall\<close>).  None of the
  program's expressions matches the empty string; after an empty match the scan moves
  on by one character.
\<close>

function scan :: "regex \<Rightarrow> mstate \<Rightarrow> mstate list" where
  "scan r st =
     (case rm r Some (st\<lparr>grp := []\<rparr>) of
        Some st' \<Rightarrow>
          if length (rest st') < length (rest st) then st' # scan r st'
          else (case rest st of [] \<Rightarrow> [st'] | x # xs \<Rightarrow> st' # scan r (st\<lparr>prev := Some x, rest := xs\<rparr>))
      | None \<Rightarrow>
          (case rest st of [] \<Rightarrow> [] | x # xs \<Rightarrow> scan r (st\<lparr>prev := Some x, rest := xs\<rparr>)))"
  by pat_completeness auto
termination
  by (relation "measure (\<lambda>(r, st). length (rest st))") auto

declare scan.simps [simp del]

text \<open>\<^verbatim>\<open>m[0]\<close>: the text of a match that started at the beginning of \<open>s\<close>.\<close>

definition matched :: "string \<Rightarrow> mstate \<Rightarrow> string" where
  "matched s st = take (length s - length (rest st)) s"

definition findall :: "regex \<Rightarrow> string \<Rightarrow> mstate list" where
  "findall r s = scan r (start s)"

section \<open>Python values, errors and the runtime\<close>

datatype error = TypeError | AttributeError | IndexError | KeyError | ValueError

text \<open>
  The values a query can meet: \<^verbatim>\<open>None\<close>, a string, a dictionary with string keys, and
  \<open>VObject\<close> for every other object (a bound method, a class): such an object has no
  \<^verbatim>\<open>__getitem__\<close> and \<^verbatim>\<open>int()\<close> rejects it with \<^verbatim>\<open>TypeError\<close>.
\<close>

datatype pyval = VNone | VStr string | VDict "(string \<times> pyval) list" | VObject

text \<open>
  A \<^verbatim>\<open>TSCNResource\<close> object is its instance attributes: \<^verbatim>\<open>resource_type\<close>,
  \<^verbatim>\<open>entries\<close> (a dictionary, unless a header attribute of that name replaced it by a
  string) and the attributes that \<^verbatim>\<open>__init__\<close> sets with \<^verbatim>\<open>setattr\<close>.
\<close>

record resource =
  resource_type :: string
  entries :: pyval
  attrs :: "(string \<times> string) list"

text \<open>
  What the Python object model adds to the instance attributes is a parameter of the
  model: \<open>rsc_class rt r name\<close> is the value that attribute lookup finds for \<open>name\<close>
  on the class of the resource \<open>r\<close> (bound methods such as \<^verbatim>\<open>query\<close>, \<^verbatim>\<open>__class__\<close>,
  \<^verbatim>\<open>__dict__\<close>, \<^verbatim>\<open>__doc__\<close>, ...), \<open>rsc_set_error rt name\<close> is the error that
  \<^verbatim>\<open>setattr\<close> of a string raises for the names the class guards with a data descriptor
  (\<^verbatim>\<open>__class__\<close>, \<^verbatim>\<open>__dict__\<close>, \<^verbatim>\<open>__weakref__\<close>), and \<open>doc_class rt name\<close> says that a
  \<^verbatim>\<open>TSCN\<close> object finds \<open>name\<close> on its class (\<^verbatim>\<open>parse_file\<close>, \<^verbatim>\<open>select\<close>, \<^verbatim>\<open>__doc__\<close>, ...).
  The guarded names never enter the instance attributes, so the instance is read first.
  \<open>int_max_str_digits rt\<close> is the interpreter's limit on the digits that \<^verbatim>\<open>int()\<close>
  accepts in a string (\<^verbatim>\<open>sys.get_int_max_str_digits()\<close>, 0 for no limit).
\<close>

record runtime =
  rsc_class :: "resource \<Rightarrow> string \<Rightarrow> pyval option"
  rsc_set_error :: "string \<Rightarrow> error option"
  doc_class :: "string \<Rightarrow> bool"
  int_max_str_digits :: nat

definition instance_attr :: "resource \<Rightarrow> string \<Rightarrow> pyval option" where
  "instance_attr self name =
     (if name = ''resource_type'' then Some (VStr (resource_type self))
      else if name = ''entries'' then Some (entries self)
      else map_option VStr (map_of (attrs self) name))"

definition getattr :: "runtime \<Rightarrow> resource \<Rightarrow> string \<Rightarrow> pyval option" where
  "getattr rt self name =
     (case instance_attr self name of
        Some v \<Rightarrow> Some v
      | None \<Rightarrow> rsc_class rt self name)"

definition setattr :: "runtime \<Rightarrow> resource \<Rightarrow> string \<Rightarrow> string \<Rightarrow> error + resource" where
  "setattr rt self k v =
     (case rsc_set_error rt k of
        Some e \<Rightarrow> Inl e
      | None \<Rightarrow>
          Inr (if k = ''resource_type'' then self\<lparr>resource_type := v\<rparr>
               else if k = ''entries'' then self\<lparr>entries := VStr v\<rparr>
               else self\<lparr>attrs := AList.update k v (attrs self)\<rparr>))"

section \<open>TSCNResource\<close>

fun set_all :: "runtime \<Rightarrow> resource \<Rightarrow> (string \<times> string) list \<Rightarrow> error + resource" where
  "set_all rt self [] = Inr self"
| "set_all rt self ((k, v) # kvs) =
     (case setattr rt self k v of Inl e \<Rightarrow> Inl e | Inr self' \<Rightarrow> set_all rt self' kvs)"

text \<open>
  \<^verbatim>\<open>TSCNResource(resource_type, **attr)\<close>: a keyword named like one of the positional
  parameters of \<^verbatim>\<open>__init__\<close> is a \<^verbatim>\<open>TypeError\<close> of the call itself.
\<close>

definition TSCNResource :: "runtime \<Rightarrow> string \<Rightarrow> (string \<times> string) list \<Rightarrow> error + resource" where
  "TSCNResource rt rtype attr =
     (if map_of attr ''self'' \<noteq> None \<or> map_of attr ''resource_type'' \<noteq> None then Inl TypeError
      else set_all rt \<lparr>resource_type = rtype, entries = VDict [], attrs = []\<rparr> attr)"

subsection \<open>query\<close>

datatype pypath = PStr string | PList "string list" | POther

datatype seg = Idx nat | Key string

fun split_slash :: "string \<Rightarrow> string list" where
  "split_slash [] = [[]]"
| "split_slash (c # cs) =
     (if c = CHR ''/'' then [] # split_slash cs
      else case split_slash cs of x # xs \<Rightarrow> (c # x) # xs | [] \<Rightarrow> [[c]])"

definition isnumeric :: "string \<Rightarrow> bool" where
  "isnumeric x = (x \<noteq> [] \<and> list_all is_digit x)"

definition digit_val :: "char \<Rightarrow> nat" where
  "digit_val c = of_char c - 48"

definition int_of_digits :: "string \<Rightarrow> nat" where
  "int_of_digits x = foldl (\<lambda>n c. 10 * n + digit_val c) 0 x"

text \<open>
  \<^verbatim>\<open>int(x)\<close> on a string: white space around is dropped (for an ASCII string: tab, LF,
  VT, FF, CR and space), a sign may come first, the digits may be separated by single
  underscores, and there are no more digits than the interpreter's limit; anything
  else is a \<^verbatim>\<open>ValueError\<close> (\<open>None\<close>).
\<close>

definition is_blank :: "char \<Rightarrow> bool" where
  "is_blank c = (let n = of_char c :: nat in (9 \<le> n \<and> n \<le> 13) \<or> n = 32)"

definition strip :: "string \<Rightarrow> string" where
  "strip s = rev (dropWhile is_blank (rev (dropWhile is_blank s)))"

fun valid_digits :: "string \<Rightarrow> bool" where
  "valid_digits [] = False"
| "valid_digits [c] = is_digit c"
| "valid_digits (c # d # cs) =
     (is_digit c \<and> (if d = CHR ''_'' then valid_digits cs else valid_digits (d # cs)))"

definition py_int :: "runtime \<Rightarrow> string \<Rightarrow> int option" where
  "py_int rt s =
     (let t = strip s;
          neg = (take 1 t = ''-'');
          u = (if take 1 t = ''-'' \<or> take 1 t = ''+'' then drop 1 t else t);
          ds = filter (\<lambda>c. c \<noteq> CHR ''_'') u
      in if valid_digits u \<and> (int_max_str_digits rt = 0 \<or> length ds \<le> int_max_str_digits rt)
         then Some ((if neg then - 1 else 1) * int (int_of_digits ds))
         else None)"

text \<open>
  \<^verbatim>\<open>x if not x.isnumeric() else int(x)\<close>: the \<^verbatim>\<open>int()\<close> of a numeric segment raises
  \<^verbatim>\<open>ValueError\<close> when the segment has more digits than the interpreter's limit.
\<close>

definition conv :: "runtime \<Rightarrow> string \<Rightarrow> error + seg" where
  "conv rt x =
     (if \<not> isnumeric x then Inr (Key x)
      else case py_int rt x of None \<Rightarrow> Inl ValueError | Some n \<Rightarrow> Inr (Idx (nat n)))"

text \<open>\<^verbatim>\<open>list(map(..., path))\<close>: every segment is converted before the first lookup.\<close>

fun conv_all :: "runtime \<Rightarrow> string list \<Rightarrow> error + seg list" where
  "conv_all rt [] = Inr []"
| "conv_all rt (x # xs) =
     (case conv rt x of
        Inl e \<Rightarrow> Inl e
      | Inr p \<Rightarrow> (case conv_all rt xs of Inl e \<Rightarrow> Inl e | Inr ps \<Rightarrow> Inr (p # ps)))"

text \<open>\<^verbatim>\<open>operator.getitem\<close> on a value: the errors are those of \<^verbatim>\<open>str\<close> and \<^verbatim>\<open>dict\<close>.\<close>

fun getitem :: "pyval \<Rightarrow> seg \<Rightarrow> error + pyval" where
  "getitem (VStr s) (Idx i) = (if i < length s then Inr (VStr [s ! i]) else Inl IndexError)"
| "getitem (VStr s) (Key k) = Inl TypeError"
| "getitem (VDict d) (Key k) = (case map_of d k of Some v \<Rightarrow> Inr v | None \<Rightarrow> Inl KeyError)"
| "getitem (VDict d) (Idx i) = Inl KeyError"
| "getitem VNone p = Inl TypeError"
| "getitem VObject p = Inl TypeError"

fun reduce_getitem :: "pyval \<Rightarrow> seg list \<Rightarrow> error + pyval" where
  "reduce_getitem v [] = Inr v"
| "reduce_getitem v (p # ps) =
     (case getitem v p of Inl e \<Rightarrow> Inl e | Inr w \<Rightarrow> reduce_getitem w ps)"

text \<open>\<^verbatim>\<open>hasattr(self, name)\<close>: a name that is not a string is a \<^verbatim>\<open>TypeError\<close>.\<close>

definition hasattr :: "runtime \<Rightarrow> resource \<Rightarrow> seg \<Rightarrow> error + bool" where
  "hasattr rt self p =
     (case p of Idx i \<Rightarrow> Inl TypeError | Key k \<Rightarrow> Inr (getattr rt self k \<noteq> None))"

text \<open>\<^verbatim>\<open>TSCNResource.__getitem__\<close> is \<^verbatim>\<open>getattr(self, key)\<close>.\<close>

definition getitem_self :: "runtime \<Rightarrow> resource \<Rightarrow> seg \<Rightarrow> error + pyval" where
  "getitem_self rt self p =
     (case p of
        Idx i \<Rightarrow> Inl TypeError
      | Key k \<Rightarrow> (case getattr rt self k of Some v \<Rightarrow> Inr v | None \<Rightarrow> Inl AttributeError))"

definition substring :: "string \<Rightarrow> string \<Rightarrow> bool" where
  "substring k e = list_ex (\<lambda>n. take (length k) (drop n e) = k) [0 ..< Suc (length e)]"

text \<open>\<^verbatim>\<open>key in container\<close>: key membership in a dictionary, substring test in a string.\<close>

fun contains :: "pyval \<Rightarrow> seg \<Rightarrow> error + bool" where
  "contains (VDict d) (Key k) = Inr (map_of d k \<noteq> None)"
| "contains (VDict d) (Idx i) = Inr False"
| "contains (VStr e) (Key k) = Inr (substring k e)"
| "contains (VStr e) (Idx i) = Inl TypeError"
| "contains VNone p = Inl TypeError"
| "contains VObject p = Inl TypeError"

definition query :: "runtime \<Rightarrow> resource \<Rightarrow> pypath \<Rightarrow> pyval \<Rightarrow> error + pyval" where
  "query rt self path dflt =
     (case (case path of PStr s \<Rightarrow> Some (split_slash s) | PList l \<Rightarrow> Some l | POther \<Rightarrow> None) of
        None \<Rightarrow> Inr dflt
      | Some [] \<Rightarrow> Inr dflt
      | Some (x # xs) \<Rightarrow>
          (case conv rt x of
             Inl e \<Rightarrow> Inl e
           | Inr p \<Rightarrow>
               (case conv_all rt xs of
                  Inl e \<Rightarrow> Inl e
                | Inr ps \<Rightarrow>
                    (case hasattr rt self p of
                       Inl e \<Rightarrow> Inl e
                     | Inr True \<Rightarrow>
                         (case getitem_self rt self p of
                            Inl e \<Rightarrow> Inl e
                          | Inr v \<Rightarrow> reduce_getitem v ps)
                     | Inr False \<Rightarrow>
                         (case contains (entries self) p of
                            Inl e \<Rightarrow> Inl e
                          | Inr True \<Rightarrow> reduce_getitem (entries self) (p # ps)
                          | Inr False \<Rightarrow> Inr dflt)))))"

section \<open>Selector\<close>

text \<open>
  A compiled selector is the dictionary \<^verbatim>\<open>{type: attrs}\<close>; \<^verbatim>\<open>attrs\<close> maps a path to the
  pair of operator and right-hand side.  Dictionaries are association lists in
  insertion order; \<open>AList.update\<close> is the assignment \<^verbatim>\<open>d[k] = v\<close>.
\<close>

type_synonym clauses = "(string \<times> string \<times> string) list"
type_synonym selector = "(string \<times> clauses) list"

text \<open>\<^verbatim>\<open>^.*?(?=\[|$)\<close>\<close>

definition type_re :: regex where
  "type_re = cats [Bol False, Rep False dot, Ahead (Alt (lit (CHR ''['')) (Eol False))]"

text \<open>\<^verbatim>\<open>\[([^!<>=\s]+)\s?([!<>=]+)\s?(.*)\]\<close>\<close>

definition op_chars :: "citem list" where
  "op_chars = [CChar (CHR ''!''), CChar (CHR ''<''), CChar (CHR ''>''), CChar (CHR ''='')]"

definition queries_re :: regex where
  "queries_re =
     cats [lit (CHR ''[''), Grp 1 (plus (Sym (Neg (op_chars @ [CSpace])))), Opt (Sym (Pos [CSpace])),
           Grp 2 (plus (Sym (Pos op_chars))), Opt (Sym (Pos [CSpace])),
           Grp 3 (Rep True dot), lit (CHR '']'')]"

text \<open>The argument of \<^verbatim>\<open>Selector.parse\<close>: a string, or any other object.\<close>

datatype pysrc = SStr string | SOther

definition Selector_parse :: "pysrc \<Rightarrow> error + selector" where
  "Selector_parse src =
     (case src of
        SOther \<Rightarrow> Inl ValueError
      | SStr s \<Rightarrow>
          (case re_match type_re s of
             None \<Rightarrow> Inl ValueError
           | Some m \<Rightarrow>
               Inr [(matched s m,
                     foldl (\<lambda>attrs q. AList.update (group q 1) (group q 2, group q 3) attrs) []
                       (findall queries_re s))]))"

section \<open>TSCN\<close>

text \<open>
  The resources are objects shared by the lists of the document and mutated after they
  were appended: the document keeps them in a store (\<open>heap\<close>), the lists hold addresses.
\<close>

record document =
  heap :: "resource list"
  resources :: "nat list"
  node :: "nat list"
  ext_resource :: "nat list"
  sub_resource :: "nat list"
  connection :: "nat list"
  scene :: "nat option"

definition init :: document where
  "init = \<lparr>heap = [], resources = [], node = [], ext_resource = [], sub_resource = [],
           connection = [], scene = None\<rparr>"

subsection \<open>parse_file\<close>

text \<open>\<^verbatim>\<open>\w+\(.+?\)|\".+?\"|\[.+?\]|\S+\<close> with \<^verbatim>\<open>re.DOTALL\<close>\<close>

definition value_re :: regex where
  "value_re =
     Alt (cats [plus (Sym (Pos [CWord])), lit (CHR ''(''), plus_lazy dotall, lit (CHR '')'')])
    (Alt (cats [lit dq, plus_lazy dotall, lit dq])
    (Alt (cats [lit (CHR ''[''), plus_lazy dotall, lit (CHR '']'')])
         (plus (Sym (Neg [CSpace])))))"

text \<open>\<^verbatim>\<open>(?:^\[(\w+)(.*?)\]$|^([\w/]+)\s*=\s*(...)$)\<close> with \<^verbatim>\<open>re.DOTALL | re.MULTILINE\<close>\<close>

definition lines_re :: regex where
  "lines_re =
     Alt (cats [Bol True, lit (CHR ''[''), Grp 1 (plus (Sym (Pos [CWord]))), Grp 2 (Rep False dotall),
                lit (CHR '']''), Eol True])
         (cats [Bol True, Grp 3 (plus (Sym (Pos [CWord, CChar (CHR ''/'')]))),
                Rep True (Sym (Pos [CSpace])), lit (CHR ''=''), Rep True (Sym (Pos [CSpace])),
                Grp 4 value_re, Eol True])"

text \<open>\<^verbatim>\<open>([\w/]+)\s*=\s*(...)\<close> with \<^verbatim>\<open>re.DOTALL\<close>\<close>

definition pairs_re :: regex where
  "pairs_re =
     cats [Grp 1 (plus (Sym (Pos [CWord, CChar (CHR ''/'')]))), Rep True (Sym (Pos [CSpace])),
           lit (CHR ''=''), Rep True (Sym (Pos [CSpace])), Grp 2 value_re]"

text \<open>\<^verbatim>\<open>{k: v.replace('"', '') for (k, v) in pairs}\<close>\<close>

definition header_attrs :: "string \<Rightarrow> (string \<times> string) list" where
  "header_attrs rest' =
     foldl (\<lambda>d p. AList.update (group p 1) (filter (\<lambda>c. c \<noteq> dq) (group p 2)) d) []
       (findall pairs_re rest')"

text \<open>
  \<^verbatim>\<open>setattr(self, resource_type, getattr(self, resource_type) + [rsc])\<close>: the attribute
  must exist and be a list.  The instance attributes of a \<^verbatim>\<open>TSCN\<close> object are the four
  lists of \<^verbatim>\<open>__init__\<close>, \<^verbatim>\<open>resources\<close> and, once set, \<^verbatim>\<open>scene\<close>.
\<close>

definition add_by_type :: "runtime \<Rightarrow> string \<Rightarrow> nat \<Rightarrow> document \<Rightarrow> error + document" where
  "add_by_type rt rtype a doc =
     (if rtype = ''node'' then Inr (doc\<lparr>node := node doc @ [a]\<rparr>)
      else if rtype = ''ext_resource'' then Inr (doc\<lparr>ext_resource := ext_resource doc @ [a]\<rparr>)
      else if rtype = ''sub_resource'' then Inr (doc\<lparr>sub_resource := sub_resource doc @ [a]\<rparr>)
      else if rtype = ''connection'' then Inr (doc\<lparr>connection := connection doc @ [a]\<rparr>)
      else if rtype = ''resources'' then Inr (doc\<lparr>resources := resources doc @ [a]\<rparr>)
      else if rtype = ''scene'' \<and> scene doc \<noteq> None then Inl TypeError
      else if doc_class rt rtype then Inl TypeError
      else Inl AttributeError)"

text \<open>The branch \<^verbatim>\<open>if len(resource_type):\<close> of the loop; it returns the new \<^verbatim>\<open>rsc\<close>.\<close>

definition header_line :: "runtime \<Rightarrow> string \<Rightarrow> string \<Rightarrow> document \<Rightarrow> error + document \<times> nat option" where
  "header_line rt rtype rest' doc =
     (case TSCNResource rt rtype (header_attrs rest') of
        Inl e \<Rightarrow> Inl e
      | Inr rsc \<Rightarrow>
          (let a = length (heap doc); doc1 = doc\<lparr>heap := heap doc @ [rsc]\<rparr> in
           case (if rtype = ''gd_scene'' then Inr (doc1\<lparr>scene := Some a\<rparr>)
                 else add_by_type rt rtype a doc1) of
             Inl e \<Rightarrow> Inl e
           | Inr doc2 \<Rightarrow> Inr (doc2\<lparr>resources := resources doc2 @ [a]\<rparr>, Some a)))"

text \<open>\<^verbatim>\<open>value.replace("\n", "\\n")\<close>\<close>

definition escape_nl :: "string \<Rightarrow> string" where
  "escape_nl v = concat (map (\<lambda>c. if c = nl then [bsl, CHR ''n''] else [c]) v)"

text \<open>
  \<^verbatim>\<open>re.sub(r"^\"(.*)\"$", r"\1", value)\<close>: the expression can match at position 0 only,
  so there is at most one replacement and the text after the match is kept.
\<close>

definition quoted_re :: regex where
  "quoted_re = cats [Bol False, lit dq, Grp 1 (Rep True dot), lit dq, Eol False]"

definition sub_quoted :: "string \<Rightarrow> string" where
  "sub_quoted v = (case re_match quoted_re v of Some m \<Rightarrow> group m 1 @ rest m | None \<Rightarrow> v)"

text \<open>The three statements that turn the matched value into the stored one.\<close>

definition stored_value :: "string \<Rightarrow> string" where
  "stored_value v =
     (let v1 = escape_nl v; v2 = sub_quoted v1 in
      if take 1 v2 = ''+'' then ''='' @ [dq] @ v2 @ [dq] else v2)"

text \<open>
  \<^verbatim>\<open>rsc.entries[key] = value\<close>: \<^verbatim>\<open>rsc\<close> is \<^verbatim>\<open>None\<close> before the first header line, and
  \<^verbatim>\<open>entries\<close> is a string after a header attribute named \<^verbatim>\<open>entries\<close>.
\<close>

definition body_line :: "string \<Rightarrow> string \<Rightarrow> document \<Rightarrow> nat option \<Rightarrow> error + document \<times> nat option" where
  "body_line key v doc rsc =
     (let v' = stored_value v in
      case rsc of
        None \<Rightarrow> Inl AttributeError
      | Some a \<Rightarrow>
          (case entries (heap doc ! a) of
             VDict d \<Rightarrow>
               Inr (doc\<lparr>heap := (heap doc)[a := (heap doc ! a)\<lparr>entries := VDict (AList.update key (VStr v') d)\<rparr>]\<rparr>,
                    rsc)
           | VStr e \<Rightarrow> Inl TypeError
           | VNone \<Rightarrow> Inl TypeError
           | VObject \<Rightarrow> Inl TypeError))"

definition parse_line :: "runtime \<Rightarrow> mstate \<Rightarrow> document \<times> nat option \<Rightarrow> error + document \<times> nat option" where
  "parse_line rt line s =
     (let rtype = group line 1; rest' = group line 2; key = group line 3; v = group line 4 in
      if length rtype \<noteq> 0 then header_line rt rtype rest' (fst s)
      else body_line key v (fst s) (snd s))"

fun parse_lines :: "runtime \<Rightarrow> mstate list \<Rightarrow> document \<times> nat option \<Rightarrow> error + document" where
  "parse_lines rt [] s = Inr (fst s)"
| "parse_lines rt (line # lines) s =
     (case parse_line rt line s of Inl e \<Rightarrow> Inl e | Inr s' \<Rightarrow> parse_lines rt lines s')"

text \<open>\<open>data\<close> is the text that \<^verbatim>\<open>file.read()\<close> returns.\<close>

definition parse_file :: "runtime \<Rightarrow> string \<Rightarrow> document \<Rightarrow> error + document" where
  "parse_file rt data doc = parse_lines rt (findall lines_re data) (doc, None)"

text \<open>\<^verbatim>\<open>TSCN(path)\<close>: \<^verbatim>\<open>__init__\<close> creates the empty lists and parses the file.\<close>

definition TSCN :: "runtime \<Rightarrow> string \<Rightarrow> error + document" where
  "TSCN rt data = parse_file rt data init"

subsection \<open>select\<close>

text \<open>The \<^verbatim>\<open>match op\<close> of the \<^verbatim>\<open>try\<close> block, and the \<^verbatim>\<open>return False\<close> after it.\<close>

definition compare_int :: "string \<Rightarrow> int \<Rightarrow> int \<Rightarrow> bool" where
  "compare_int op lhs rhs =
     (if op = ''='' \<or> op = ''=='' then lhs = rhs
      else if op = ''>='' then lhs \<ge> rhs
      else if op = ''<='' then lhs \<le> rhs
      else if op = ''>'' then lhs > rhs
      else if op = ''<'' then lhs < rhs
      else if op = ''!='' then lhs \<noteq> rhs
      else False)"

text \<open>
  The \<^verbatim>\<open>match op\<close> of the \<^verbatim>\<open>except ValueError\<close> block; \<open>eq\<close> is \<^verbatim>\<open>lhs == rhs\<close>.
\<close>

definition compare_other :: "string \<Rightarrow> bool \<Rightarrow> bool" where
  "compare_other op eq =
     (if op = ''='' \<or> op = ''=='' then eq
      else if op = ''!='' then \<not> eq
      else False)"

text \<open>
  The body of the loop \<^verbatim>\<open>for path, relation in selector.items()\<close>: every branch
  returns, so the function does not call itself.  \<^verbatim>\<open>obj.query\<close> is the method unless
  a header attribute named \<^verbatim>\<open>query\<close> hides it with a string, which cannot be called.
  When \<^verbatim>\<open>int(lhs)\<close> succeeds and \<^verbatim>\<open>int(rhs)\<close> raises, \<^verbatim>\<open>lhs\<close> is already an integer in the
  \<^verbatim>\<open>except\<close> block, and an integer never equals a string.
\<close>

fun clause_loop :: "runtime \<Rightarrow> resource \<Rightarrow> clauses \<Rightarrow> error + bool" where
  "clause_loop rt obj [] = Inr False"
| "clause_loop rt obj ((path, op, rhs) # others) =
     (if map_of (attrs obj) ''query'' \<noteq> None then Inl TypeError
      else case query rt obj (PStr path) VNone of
        Inl e \<Rightarrow> Inl e
      | Inr VNone \<Rightarrow> Inr False
      | Inr (VDict d) \<Rightarrow> Inl TypeError
      | Inr VObject \<Rightarrow> Inl TypeError
      | Inr (VStr lhs) \<Rightarrow>
          (case py_int rt lhs of
             None \<Rightarrow> Inr (compare_other op (lhs = rhs))
           | Some l \<Rightarrow>
               (case py_int rt rhs of
                  None \<Rightarrow> Inr (compare_other op False)
                | Some r \<Rightarrow> Inr (compare_int op l r))))"

definition predicate :: "runtime \<Rightarrow> selector \<Rightarrow> resource \<Rightarrow> error + bool" where
  "predicate rt selectors obj =
     (case map_of selectors (resource_type obj) of
        None \<Rightarrow> Inr False
      | Some sel \<Rightarrow> if sel = [] then Inr True else clause_loop rt obj sel)"

text \<open>The list comprehension \<^verbatim>\<open>[resource for resource in self.resources if predicate(resource)]\<close>.\<close>

fun comprehension :: "(resource \<Rightarrow> error + bool) \<Rightarrow> resource list \<Rightarrow> error + resource list" where
  "comprehension p [] = Inr []"
| "comprehension p (x # xs) =
     (case p x of
        Inl e \<Rightarrow> Inl e
      | Inr b \<Rightarrow>
          (case comprehension p xs of
             Inl e \<Rightarrow> Inl e
           | Inr ys \<Rightarrow> Inr (if b then x # ys else ys)))"

datatype selarg = SelStr string | SelDict selector

text \<open>The objects of \<^verbatim>\<open>self.resources\<close>, in the order of the list.\<close>

definition objects :: "document \<Rightarrow> resource list" where
  "objects doc = map (\<lambda>a. heap doc ! a) (resources doc)"

definition select :: "runtime \<Rightarrow> document \<Rightarrow> selarg \<Rightarrow> error + resource list option" where
  "select rt doc selectors =
     (case (case selectors of SelStr s \<Rightarrow> Selector_parse (SStr s) | SelDict d \<Rightarrow> Inr d) of
        Inl e \<Rightarrow> Inl e
      | Inr sel \<Rightarrow>
          (case comprehension (predicate rt sel) (objects doc) of
             Inl e \<Rightarrow> Inl e
           | Inr rs \<Rightarrow> Inr (if length rs \<noteq> 0 then Some rs else None)))"

section \<open>The CPython object model as one runtime\<close>

text \<open>
  The attributes that every object has from \<^verbatim>\<open>object\<close> and from its class statement,
  as one instance of the parameter; the closed examples below are evaluated with it.
\<close>

definition object_methods :: "string list" where
  "object_methods =
     [''__class__'', ''__delattr__'', ''__dir__'', ''__eq__'', ''__format__'', ''__ge__'',
      ''__getattribute__'', ''__getstate__'', ''__gt__'', ''__hash__'', ''__init__'',
      ''__init_subclass__'', ''__le__'', ''__lt__'', ''__ne__'', ''__new__'', ''__reduce__'',
      ''__reduce_ex__'', ''__repr__'', ''__setattr__'', ''__sizeof__'', ''__str__'',
      ''__subclasshook__'']"

definition instance_dict :: "resource \<Rightarrow> pyval" where
  "instance_dict r =
     VDict ([(''resource_type'', VStr (resource_type r)), (''entries'', entries r)]
            @ map (\<lambda>(k, v). (k, VStr v)) (attrs r))"

definition cpython :: runtime where
  "cpython =
     \<lparr>rsc_class = (\<lambda>r name.
         if name = ''__dict__'' then Some (instance_dict r)
         else if name = ''__doc__'' \<or> name = ''__weakref__'' then Some VNone
         else if name = ''__module__'' then Some (VStr ''__main__'')
         else if name \<in> set ([''query'', ''__getitem__''] @ object_methods) then Some VObject
         else None),
      rsc_set_error = (\<lambda>name.
         if name = ''__class__'' \<or> name = ''__dict__'' then Some TypeError
         else if name = ''__weakref__'' then Some AttributeError
         else None),
      doc_class = (\<lambda>name.
         name \<in> set ([''parse_file'', ''select'', ''__dict__'', ''__doc__'', ''__weakref__'',
                      ''__module__''] @ object_methods)),
      int_max_str_digits = 4300\<rparr>"

section \<open>Notions used in the statements\<close>

text \<open>
  The position where the lookahead \<^verbatim>\<open>(?=\[|$)\<close> of the type expression succeeds: at the
  end of the text, before an opening bracket, or before a line break that ends the text.
\<close>

definition kind_stop :: "string \<Rightarrow> bool" where
  "kind_stop xs = (case xs of [] \<Rightarrow> True | x # ys \<Rightarrow> x = CHR ''['' \<or> (x = nl \<and> ys = []))"

text \<open>The list \<^verbatim>\<open>types\<close> of \<^verbatim>\<open>TSCN.__init__\<close>: the kinds that have a list of their own.\<close>

definition types :: "string list" where
  "types = [''node'', ''ext_resource'', ''sub_resource'', ''connection'']"

text \<open>Every value of the entries of a resource is a string.\<close>

definition text_entries :: "resource \<Rightarrow> bool" where
  "text_entries r =
     (case entries r of
        VDict d \<Rightarrow> (\<forall>k w. map_of d k = Some w \<longrightarrow> (\<exists>v. w = VStr v))
      | VStr e \<Rightarrow> True
      | VNone \<Rightarrow> False
      | VObject \<Rightarrow> False)"

text \<open>
  The kinds that a recognised line adds to \<^verbatim>\<open>self.resources\<close>: none for a body line,
  its kind for a header line (twice when the kind is the name \<^verbatim>\<open>resources\<close> itself).
\<close>

definition created :: "mstate \<Rightarrow> string list" where
  "created line =
     (if group line 1 = [] then []
      else if group line 1 = ''resources'' then [group line 1, group line 1]
      else [group line 1])"

text \<open>\<^verbatim>\<open>"/".join(segments)\<close>, to say what \<^verbatim>\<open>split("/")\<close> returns.\<close>

fun join_slash :: "string list \<Rightarrow> string" where
  "join_slash [] = []"
| "join_slash [x] = x"
| "join_slash (x # y # ys) = x @ CHR ''/'' # join_slash (y # ys)"

text \<open>The decimal numeral of a number, to say what \<^verbatim>\<open>int()\<close> returns on digits.\<close>

fun dec :: "nat \<Rightarrow> string" where
  "dec n = (if n < 10 then [char_of (48 + n)] else dec (n div 10) @ [char_of (48 + n mod 10)])"

declare dec.simps [simp del]

text \<open>
  The converted segment, \<^verbatim>\<open>x if not x.isnumeric() else int(x)\<close>, when \<^verbatim>\<open>int()\<close> accepts
  the digits.
\<close>

definition segment :: "string \<Rightarrow> seg" where
  "segment x = (if isnumeric x then Idx (int_of_digits x) else Key x)"

text \<open>A numeric segment that \<^verbatim>\<open>int()\<close> refuses: more digits than the limit of the interpreter.\<close>

definition too_long :: "runtime \<Rightarrow> string \<Rightarrow> bool" where
  "too_long rt x = (isnumeric x \<and> 0 < int_max_str_digits rt \<and> int_max_str_digits rt < length x)"

section \<open>Example inputs\<close>

definition health :: resource where
  "health =
     \<lparr>resource_type = ''node'',
      entries = VDict [(''name'', VStr ''Entry''), (''hp'', VStr ''50'')],
      attrs = [(''name'', ''Health'')]\<rparr>"

definition ab_entry :: resource where
  "ab_entry = \<lparr>resource_type = ''node'', entries = VDict [(''k'', VStr ''ab'')], attrs = []\<rparr>"

definition hp_selector :: selector where
  "hp_selector = [(''node'', [(''hp'', ''>='', ''50''), (''name'', ''='', ''Nobody'')])]"

text \<open>Three nodes with distinct names, as a file and as the document parsed from it.\<close>

definition three_nodes :: string where
  "three_nodes =
     ''[node name='' @ [dq] @ ''Area'' @ [dq] @ '']'' @ [nl] @
     ''[node name='' @ [dq] @ ''Health'' @ [dq] @ '']'' @ [nl] @
     ''StartHealth = 100'' @ [nl] @
     ''[node name='' @ [dq] @ ''Loot'' @ [dq] @ '']''"

definition node_named :: "string \<Rightarrow> (string \<times> pyval) list \<Rightarrow> resource" where
  "node_named n es = \<lparr>resource_type = ''node'', entries = VDict es, attrs = [(''name'', n)]\<rparr>"

definition three_doc :: document where
  "three_doc =
     \<lparr>heap = [node_named ''Area'' [], node_named ''Health'' [(''StartHealth'', VStr ''100'')],
              node_named ''Loot'' []],
      resources = [0, 1, 2], node = [0, 1, 2], ext_resource = [], sub_resource = [],
      connection = [], scene = None\<rparr>"

definition bonus_doc :: document where
  "bonus_doc =
     \<lparr>heap = [node_named ''Area'' [],
              node_named ''Health''
                [(''StartHealth'', VStr ''100''), (''Bonus'', VStr (''='' @ [dq] @ ''+10%'' @ [dq]))],
              node_named ''Loot'' []],
      resources = [0, 1, 2], node = [0, 1, 2], ext_resource = [], sub_resource = [],
      connection = [], scene = None\<rparr>"

definition one_node :: "resource \<Rightarrow> document" where
  "one_node r =
     \<lparr>heap = [r], resources = [0], node = [0], ext_resource = [], sub_resource = [],
      connection = [], scene = None\<rparr>"

definition guard_text :: string where
  "guard_text = ''[node]'' @ [nl] @ ''x = +10%'' @ [nl] @ ''y = 10%''"

definition guard_node :: resource where
  "guard_node =
     \<lparr>resource_type = ''node'',
      entries = VDict [(''x'', VStr (''='' @ [dq] @ ''+10%'' @ [dq])), (''y'', VStr ''10%'')],
      attrs = []\<rparr>"

definition array_text :: string where
  "array_text = ''[node]'' @ [nl] @ ''k = [1, 2]''"

definition array_node :: resource where
  "array_node = \<lparr>resource_type = ''node'', entries = VDict [(''k'', VStr ''[1, 2]'')], attrs = []\<rparr>"

definition plus_node :: resource where
  "plus_node = \<lparr>resource_type = ''node'', entries = VDict [], attrs = [(''a'', ''+1'')]\<rparr>"

definition plus_pair :: mstate where
  "plus_pair = \<lparr>prev = Some (CHR ''1''), rest = [], grp = [(1, ''a''), (2, ''+1'')]\<rparr>"

definition foo_line :: mstate where
  "foo_line = \<lparr>prev = Some (CHR '']''), rest = [], grp = [(1, ''foo''), (2, [])]\<rparr>"

definition body_only :: mstate where
  "body_only = \<lparr>prev = Some (CHR ''1''), rest = [], grp = [(3, ''a''), (4, ''1'')]\<rparr>"

definition empty_node :: "string \<Rightarrow> resource" where
  "empty_node t = \<lparr>resource_type = t, entries = VDict [], attrs = []\<rparr>"

definition resources_doc :: document where
  "resources_doc =
     \<lparr>heap = [empty_node ''resources''], resources = [0, 0], node = [], ext_resource = [],
      sub_resource = [], connection = [], scene = None\<rparr>"

definition missing_selector :: selector where
  "missing_selector = [(''node'', [(''missing'', ''='', ''1'')])]"

definition name_selector :: selector where
  "name_selector = [(''node'', [(''name'', ''<'', ''Health'')])]"

definition entries_selector :: selector where
  "entries_selector = [(''node'', [(''entries'', ''='', ''1'')])]"

definition range_selector :: selector where
  "range_selector = [(''node'', [(''k/5'', ''='', ''1'')])]"

text \<open>A numeric name as attribute and as entry key; an entry key with a slash.\<close>

definition seven_text :: string where
  "seven_text = ''[node 7=A]'' @ [nl] @ ''7 = E''"

definition seven_node :: resource where
  "seven_node = \<lparr>resource_type = ''node'', entries = VDict [(''7'', VStr ''E'')], attrs = [(''7'', ''A'')]\<rparr>"

definition slash_text :: string where
  "slash_text = ''[node]'' @ [nl] @ ''a/b = [1, 2]''"

definition slash_node :: resource where
  "slash_node = \<lparr>resource_type = ''node'', entries = VDict [(''a/b'', VStr ''[1, 2]'')], attrs = []\<rparr>"

definition ab_text :: string where
  "ab_text = ''[node]'' @ [nl] @ ''k = ab''"

section \<open>Properties of the matcher on the expressions of the program\<close>

lemma rm_lit:
  "rm (lit c) k st =
     (case rest st of [] \<Rightarrow> None | x # xs \<Rightarrow> if x = c then k (st\<lparr>prev := Some x, rest := xs\<rparr>) else None)"
  by (simp add: lit_def split: list.splits)

lemma rm_dot:
  "rm dot k st =
     (case rest st of [] \<Rightarrow> None | x # xs \<Rightarrow> if x \<noteq> nl then k (st\<lparr>prev := Some x, rest := xs\<rparr>) else None)"
  by (simp add: dot_def split: list.splits)

lemma type_ahead:
  "rm (Cat (Ahead (Alt (lit (CHR ''['')) (Eol False))) Eps) Some st =
     (if kind_stop (rest st) then Some st else None)"
  by (cases "rest st") (auto simp: rm_lit kind_stop_def)

lemma rep_lazy_type:
  fixes k :: "mstate \<Rightarrow> mstate option"
  assumes k: "\<And>st. k st = (if kind_stop (rest st) then Some st else None)"
  shows "length (rest st) \<le> n \<Longrightarrow>
     (let r = dropWhile (\<lambda>c. c \<noteq> CHR ''['' \<and> c \<noteq> nl) (rest st) in
        if kind_stop r then \<exists>st'. rep_lazy n (rm dot) k st = Some st' \<and> rest st' = r
        else rep_lazy n (rm dot) k st = None)"
proof (induction "rest st" arbitrary: st n)
  case Nil
  then show ?case by (cases n) (simp_all add: k kind_stop_def)
next
  case (Cons x xs)
  from Cons(2) [symmetric] Cons(3) obtain m where n: "n = Suc m" and m: "length xs \<le> m"
    by (cases n) auto
  let ?st1 = "st\<lparr>prev := Some x, rest := xs\<rparr>"
  have r1: "xs = rest ?st1" by simp
  note ih = Cons(1) [OF r1, of m, simplified]
  show ?case
  proof (cases "x = CHR ''['' \<or> x = nl")
    case True
    then show ?thesis
      using Cons(2) [symmetric] n
      by (auto simp: k kind_stop_def rm_dot Let_def)
  next
    case False
    then have ks: "\<not> kind_stop (x # xs)" by (simp add: kind_stop_def)
    have step: "rep_lazy n (rm dot) k st = rep_lazy m (rm dot) k ?st1"
      using Cons(2) [symmetric] n False ks by (simp add: k rm_dot)
    show ?thesis
      using ih m False Cons(2) [symmetric] step by (simp add: Let_def)
  qed
qed

lemma re_match_type:
  "(let r = dropWhile (\<lambda>c. c \<noteq> CHR ''['' \<and> c \<noteq> nl) s in
      if kind_stop r then \<exists>m. re_match type_re s = Some m \<and> rest m = r
      else re_match type_re s = None)"
proof -
  have "re_match type_re s =
      rep_lazy (length s) (rm dot) (rm (Cat (Ahead (Alt (lit (CHR ''['')) (Eol False))) Eps) Some) (start s)"
    by (simp add: re_match_def type_re_def cats_def start_def)
  moreover have "length (rest (start s)) \<le> length s" by (simp add: start_def)
  ultimately show ?thesis
    using rep_lazy_type [of "rm (Cat (Ahead (Alt (lit (CHR ''['')) (Eol False))) Eps) Some" "start s" "length s", OF type_ahead]
    by (auto simp: start_def Let_def)
qed

lemma matched_takeWhile:
  "rest m = dropWhile P s \<Longrightarrow> matched s m = takeWhile P s"
proof -
  assume a: "rest m = dropWhile P s"
  have "length s - length (dropWhile P s) = length (takeWhile P s)"
    by (metis add_diff_cancel_right' length_append takeWhile_dropWhile_id)
  then have "take (length s - length (dropWhile P s)) s = takeWhile P s"
    by (metis append_eq_conv_conj takeWhile_dropWhile_id)
  with a show ?thesis by (simp add: matched_def)
qed

lemma scan_queries_none:
  "CHR ''['' \<notin> set (rest st) \<Longrightarrow> scan queries_re st = []"
proof (induction "rest st" arbitrary: st)
  case Nil
  then show ?case
    by (subst scan.simps) (simp add: queries_re_def cats_def rm_lit)
next
  case (Cons x xs)
  let ?st1 = "st\<lparr>prev := Some x, rest := xs\<rparr>"
  have "scan queries_re ?st1 = []"
    using Cons(1) [of ?st1] Cons(2,3) by (metis list.set_intros(2) mstate.select_convs(2) mstate.surjective mstate.update_convs(1,2))
  moreover have "rm queries_re Some (st\<lparr>grp := []\<rparr>) = None"
    using Cons(2) [symmetric] Cons(3) by (auto simp: queries_re_def cats_def rm_lit)
  ultimately show ?case
    using Cons(2) [symmetric] by (subst scan.simps) simp
qed

lemma rep_greedy_quoted:
  fixes kk :: "mstate \<Rightarrow> mstate option"
  assumes none: "\<And>st. nl \<notin> set (rest st) \<Longrightarrow> rest st \<noteq> [dq] \<Longrightarrow> kk st = None"
    and some: "\<And>st. rest st = [dq] \<Longrightarrow> kk st \<noteq> None"
  shows "length (rest st) \<le> n \<Longrightarrow> nl \<notin> set (rest st) \<Longrightarrow>
     (if rest st \<noteq> [] \<and> last (rest st) = dq
      then \<exists>st'. rest st' = [dq] \<and> grp st' = grp st \<and> rep_greedy n (rm dot) kk st = kk st'
      else rep_greedy n (rm dot) kk st = None)"
proof (induction "rest st" arbitrary: st n)
  case Nil
  then show ?case by (cases n) (simp_all add: none rm_dot)
next
  case (Cons x xs)
  from Cons(2) [symmetric] Cons(3) obtain m where n: "n = Suc m" and m: "length xs \<le> m"
    by (cases n) auto
  from Cons(2) [symmetric] Cons(4) have x: "x \<noteq> nl" and xs: "nl \<notin> set xs" by auto
  let ?st1 = "st\<lparr>prev := Some x, rest := xs\<rparr>"
  have r1: "xs = rest ?st1" by simp
  have ih: "if xs \<noteq> [] \<and> last xs = dq
      then \<exists>st'. rest st' = [dq] \<and> grp st' = grp st \<and> rep_greedy m (rm dot) kk ?st1 = kk st'
      else rep_greedy m (rm dot) kk ?st1 = None"
    using Cons(1) [OF r1, of m] m xs by (auto split: if_splits)
  have step: "rep_greedy n (rm dot) kk st =
      (case rep_greedy m (rm dot) kk ?st1 of Some y \<Rightarrow> Some y | None \<Rightarrow> kk st)"
    using Cons(2) [symmetric] n x by (simp add: rm_dot)
  show ?case
  proof (cases "xs \<noteq> [] \<and> last xs = dq")
    case True
    with ih obtain st' where s: "rest st' = [dq]" "grp st' = grp st"
      "rep_greedy m (rm dot) kk ?st1 = kk st'" by auto
    from some [OF s(1)] obtain y where "kk st' = Some y" by auto
    with s step have "rep_greedy n (rm dot) kk st = kk st'" by simp
    with s True Cons(2) [symmetric] show ?thesis by auto
  next
    case False
    with ih have "rep_greedy m (rm dot) kk ?st1 = None" by simp
    with step have e: "rep_greedy n (rm dot) kk st = kk st" by simp
    show ?thesis
    proof (cases "xs = []")
      case True
      with e Cons(2) [symmetric] x show ?thesis by (auto simp: none)
    next
      case nonempty: False
      with False have "last (x # xs) \<noteq> dq" by simp
      moreover from nonempty Cons(2) [symmetric] Cons(4) have "kk st = None" by (simp add: none)
      ultimately show ?thesis using e Cons(2) [symmetric] by simp
    qed
  qed
qed

lemma sub_quoted_eq:
  assumes "nl \<notin> set v"
  shows "sub_quoted v = (if 2 \<le> length v \<and> hd v = dq \<and> last v = dq then butlast (tl v) else v)"
proof (cases v)
  case Nil
  then show ?thesis by (simp add: sub_quoted_def re_match_def quoted_re_def cats_def start_def rm_lit)
next
  case (Cons x w)
  show ?thesis
  proof (cases "x = dq")
    case False
    with Cons show ?thesis
      by (simp add: sub_quoted_def re_match_def quoted_re_def cats_def start_def rm_lit)
  next
    case True
    let ?st0 = "\<lparr>prev = Some dq, rest = w, grp = []\<rparr>"
    let ?kk = "\<lambda>st'. rm (Cat (lit dq) (Cat (Eol False) Eps)) Some
        (st'\<lparr>grp := AList.update 1 (take (length w - length (rest st')) w) (grp st')\<rparr>)"
    have m: "re_match quoted_re v = rep_greedy (length w) (rm dot) ?kk ?st0"
      using Cons True by (simp add: re_match_def quoted_re_def cats_def start_def rm_lit)
    have kk: "\<And>st. nl \<notin> set (rest st) \<Longrightarrow> ?kk st =
        (if rest st = [dq]
         then Some (st\<lparr>grp := AList.update 1 (take (length w - 1) w) (grp st), prev := Some dq, rest := []\<rparr>)
         else None)"
    proof -
      fix st :: mstate
      assume "nl \<notin> set (rest st)"
      then show "?kk st =
        (if rest st = [dq]
         then Some (st\<lparr>grp := AList.update 1 (take (length w - 1) w) (grp st), prev := Some dq, rest := []\<rparr>)
         else None)"
        by (cases "rest st") (auto simp: rm_lit)
    qed
    have w: "nl \<notin> set (rest ?st0)" "length (rest ?st0) \<le> length w"
      using assms Cons by auto
    have g: "if rest ?st0 \<noteq> [] \<and> last (rest ?st0) = dq
      then \<exists>st'. rest st' = [dq] \<and> grp st' = grp ?st0 \<and> rep_greedy (length w) (rm dot) ?kk ?st0 = ?kk st'
      else rep_greedy (length w) (rm dot) ?kk ?st0 = None"
    proof (rule rep_greedy_quoted [where kk = "?kk", OF _ _ w(2) w(1)])
      fix st :: mstate
      assume a: "nl \<notin> set (rest st)" and b: "rest st \<noteq> [dq]"
      from kk [OF a] b show "?kk st = None" by simp
    next
      fix st :: mstate
      assume b: "rest st = [dq]"
      then have "nl \<notin> set (rest st)" by (simp add: nl_def dq_def)
      from kk [OF this] b show "?kk st \<noteq> None" by simp
    qed
    show ?thesis
    proof (cases "w \<noteq> [] \<and> last w = dq")
      case False
      with g m have "re_match quoted_re v = None" by auto
      moreover from False Cons True have "\<not> (2 \<le> length v \<and> hd v = dq \<and> last v = dq)"
        by (cases w) auto
      ultimately show ?thesis by (auto simp: sub_quoted_def)
    next
      case last: True
      with g obtain st' where s: "rest st' = [dq]" "grp st' = []"
        "rep_greedy (length w) (rm dot) ?kk ?st0 = ?kk st'" by auto
      from s(1) have "nl \<notin> set (rest st')" by (simp add: nl_def dq_def)
      from kk [OF this] s have "re_match quoted_re v =
          Some (st'\<lparr>grp := [(1, take (length w - 1) w)], prev := Some dq, rest := []\<rparr>)"
        using m by simp
      then have "sub_quoted v = take (length w - 1) w"
        by (simp add: sub_quoted_def group_def)
      moreover from last Cons True have "2 \<le> length v \<and> hd v = dq \<and> last v = dq"
        by (cases w) auto
      ultimately show ?thesis using Cons last by (auto simp: butlast_conv_take)
    qed
  qed
qed

lemma escape_nl_no_nl: "nl \<notin> set (escape_nl v)"
  by (induction v) (auto simp: escape_nl_def nl_def bsl_def)

lemma stored_value_eq:
  "stored_value v =
     (let e = escape_nl v;
          q = (if 2 \<le> length e \<and> hd e = dq \<and> last e = dq then butlast (tl e) else e)
      in if take 1 q = ''+'' then ''='' @ [dq] @ q @ [dq] else q)"
  by (simp add: stored_value_def sub_quoted_eq [OF escape_nl_no_nl] Let_def)

section \<open>Properties of query\<close>

lemma digit_not_blank: "is_digit c \<Longrightarrow> \<not> is_blank c"
  by (auto simp: is_digit_def is_blank_def Let_def)

lemma digit_not_sign: "is_digit c \<Longrightarrow> c \<noteq> CHR ''-'' \<and> c \<noteq> CHR ''+'' \<and> c \<noteq> CHR ''_'' \<and> c \<noteq> CHR ''/''"
  by (auto simp: is_digit_def Let_def)

lemma dropWhile_hd: "xs \<noteq> [] \<Longrightarrow> \<not> P (hd xs) \<Longrightarrow> dropWhile P xs = xs"
  by (cases xs) auto

lemma isnumeric_digits: "isnumeric x \<Longrightarrow> x \<noteq> [] \<and> (\<forall>c \<in> set x. is_digit c)"
  by (simp add: isnumeric_def list_all_iff)

lemma strip_numeric: "isnumeric x \<Longrightarrow> strip x = x"
proof -
  assume n: "isnumeric x"
  then have x: "x \<noteq> []" and d: "\<forall>c \<in> set x. is_digit c" by (auto dest: isnumeric_digits)
  from x d have "\<not> is_blank (hd x)" by (simp add: digit_not_blank)
  with x have a: "dropWhile is_blank x = x" by (rule dropWhile_hd)
  from x d have "\<not> is_blank (hd (rev x))" by (simp add: hd_rev digit_not_blank)
  with x have b: "dropWhile is_blank (rev x) = rev x" by (simp add: dropWhile_hd)
  from a b show ?thesis by (simp add: strip_def)
qed

lemma valid_digits_all: "x \<noteq> [] \<Longrightarrow> \<forall>c \<in> set x. is_digit c \<Longrightarrow> valid_digits x"
  by (induction x rule: valid_digits.induct) (auto dest: digit_not_sign)

lemma py_int_numeric:
  assumes "isnumeric x"
  shows "py_int rt x =
     (if int_max_str_digits rt = 0 \<or> length x \<le> int_max_str_digits rt
      then Some (int (int_of_digits x)) else None)"
proof -
  from assms have x: "x \<noteq> []" and d: "\<forall>c \<in> set x. is_digit c" by (auto dest: isnumeric_digits)
  from x d have h: "is_digit (hd x)" by simp
  from x have t: "take 1 x = [hd x]" by (cases x) auto
  from h t have s: "take 1 x \<noteq> ''-''" "take 1 x \<noteq> ''+''" by (auto dest: digit_not_sign)
  from d have f: "filter (\<lambda>c. c \<noteq> CHR ''_'') x = x" by (auto simp: filter_id_conv dest: digit_not_sign)
  from strip_numeric [OF assms] s f valid_digits_all [OF x d] show ?thesis
    by (simp add: py_int_def Let_def)
qed

lemma conv_Key: "\<not> isnumeric x \<Longrightarrow> conv rt x = Inr (Key x)"
  by (simp add: conv_def)

lemma conv_numeric:
  "isnumeric x \<Longrightarrow> conv rt x = (if too_long rt x then Inl ValueError else Inr (Idx (int_of_digits x)))"
  by (auto simp: conv_def py_int_numeric too_long_def)

lemma conv_cases:
  "conv rt x = (if too_long rt x then Inl ValueError
                else if isnumeric x then Inr (Idx (int_of_digits x)) else Inr (Key x))"
  by (cases "isnumeric x") (simp_all add: conv_numeric conv_Key too_long_def)

lemma conv_all_ok:
  "\<forall>y \<in> set xs. \<not> too_long rt y \<Longrightarrow>
     conv_all rt xs = Inr (map segment xs)"
  by (induction xs) (auto simp: conv_cases segment_def)

lemma conv_all_fails:
  "\<exists>y \<in> set xs. too_long rt y \<Longrightarrow> conv_all rt xs = Inl ValueError"
proof (induction xs)
  case Nil
  then show ?case by simp
next
  case (Cons x xs)
  show ?case
  proof (cases "too_long rt x")
    case True
    then show ?thesis by (simp add: conv_cases)
  next
    case False
    with Cons have "conv_all rt xs = Inl ValueError" by auto
    with False show ?thesis by (simp add: conv_cases)
  qed
qed

lemma digit_val_char: "d < 10 \<Longrightarrow> digit_val (char_of (48 + d)) = d \<and> is_digit (char_of (48 + d))"
  by (simp add: digit_val_def is_digit_def Let_def)

lemma int_of_digits_snoc: "int_of_digits (x @ [c]) = 10 * int_of_digits x + digit_val c"
  by (simp add: int_of_digits_def)

lemma int_of_digits_dec: "int_of_digits (dec n) = n"
proof (induction n rule: dec.induct)
  case (1 n)
  show ?case
  proof (cases "n < 10")
    case True
    then show ?thesis by (subst dec.simps) (simp add: int_of_digits_def digit_val_char)
  next
    case False
    with 1 have "int_of_digits (dec (n div 10)) = n div 10" by simp
    with False show ?thesis
      by (subst dec.simps) (simp add: int_of_digits_snoc digit_val_char)
  qed
qed

lemma int_of_digits_zeros: "int_of_digits (replicate z (CHR ''0'') @ x) = int_of_digits x"
proof -
  have "\<And>a. foldl (\<lambda>n c. 10 * n + digit_val c) a (replicate z (CHR ''0'')) = 10 ^ z * a"
    by (induction z) (simp_all add: digit_val_def)
  then show ?thesis by (simp add: int_of_digits_def)
qed

lemma dec_digits: "dec n \<noteq> [] \<and> (\<forall>c \<in> set (dec n). is_digit c)"
proof (induction n rule: dec.induct)
  case (1 n)
  show ?case
  proof (cases "n < 10")
    case True
    then show ?thesis by (subst dec.simps, subst dec.simps) (simp add: digit_val_char)
  next
    case False
    with 1 have "dec (n div 10) \<noteq> [] \<and> (\<forall>c \<in> set (dec (n div 10)). is_digit c)" by simp
    with False show ?thesis
      by (subst dec.simps, subst dec.simps) (simp add: digit_val_char)
  qed
qed

lemma numeral_text:
  "isnumeric (replicate z (CHR ''0'') @ dec n) \<and> int_of_digits (replicate z (CHR ''0'') @ dec n) = n"
  using dec_digits [of n]
  by (auto simp: isnumeric_def list_all_iff int_of_digits_zeros int_of_digits_dec is_digit_def Let_def)

lemma too_long_zeros: "too_long cpython (replicate 4300 (CHR ''0'') @ dec n)"
  using numeral_text [of 4300 n] dec_digits [of n]
  by (cases "dec n") (simp_all add: too_long_def cpython_def)

lemma split_slash_nonempty: "split_slash s \<noteq> []"
  by (induction s) (auto split: list.splits)

lemma join_split: "join_slash (split_slash s) = s"
proof (induction s)
  case Nil
  then show ?case by simp
next
  case (Cons c cs)
  obtain x xs where x: "split_slash cs = x # xs"
    using split_slash_nonempty [of cs] by (cases "split_slash cs") auto
  show ?case
  proof (cases "c = CHR ''/''")
    case True
    with Cons x show ?thesis by simp
  next
    case False
    have "join_slash ((c # x) # xs) = c # join_slash (x # xs)" by (cases xs) auto
    with False Cons x show ?thesis by simp
  qed
qed

lemma split_no_slash: "\<forall>seg \<in> set (split_slash s). CHR ''/'' \<notin> set seg"
  by (induction s) (auto split: list.splits)

lemma split_slash_no_slash: "CHR ''/'' \<notin> set i \<Longrightarrow> split_slash i = [i]"
  by (induction i) auto

lemma split_slash_append:
  "CHR ''/'' \<notin> set k \<Longrightarrow> split_slash (k @ CHR ''/'' # i) = k # split_slash i"
  by (induction k) auto

lemma isnumeric_no_slash: "isnumeric i \<Longrightarrow> CHR ''/'' \<notin> set i"
  using isnumeric_digits [of i] digit_not_sign by blast

lemma getitem_error_kinds:
  "getitem u p = Inl e \<Longrightarrow> e = IndexError \<or> e = KeyError \<or> e = TypeError"
  by (cases u; cases p) (auto split: if_splits option.splits)

lemma reduce_failing_step:
  "reduce_getitem v qs = Inr u \<Longrightarrow>
     reduce_getitem v (qs @ p # ps) =
       (case getitem u p of Inl e \<Rightarrow> Inl e | Inr w \<Rightarrow> reduce_getitem w ps)"
  by (induction qs arbitrary: v) (auto split: sum.splits)

lemma query_PStr: "query rt self (PStr s) d = query rt self (PList (split_slash s)) d"
  by (simp add: query_def)

lemma query_too_long:
  "\<exists>y \<in> set (x # xs). too_long rt y \<Longrightarrow> query rt self (PList (x # xs)) d = Inl ValueError"
  using conv_all_fails [of "x # xs" rt]
  by (auto simp: query_def split: sum.splits)

lemma query_numeric_first:
  "\<forall>y \<in> set (x # xs). \<not> too_long rt y \<Longrightarrow> isnumeric x \<Longrightarrow>
     query rt self (PList (x # xs)) d = Inl TypeError"
  using conv_all_ok [of xs rt]
  by (simp add: query_def conv_cases hasattr_def)

lemma query_attr:
  "\<not> isnumeric x \<Longrightarrow> conv_all rt xs = Inr ps \<Longrightarrow> getattr rt self x = Some v \<Longrightarrow>
     query rt self (PList (x # xs)) d = reduce_getitem v ps"
  by (simp add: query_def conv_Key hasattr_def getitem_self_def)

lemma query_entry:
  "\<not> isnumeric x \<Longrightarrow> conv_all rt xs = Inr ps \<Longrightarrow> getattr rt self x = None \<Longrightarrow>
   entries self = VDict dd \<Longrightarrow>
     query rt self (PList (x # xs)) d =
       (case map_of dd x of Some v \<Rightarrow> reduce_getitem v ps | None \<Rightarrow> Inr d)"
  by (simp add: query_def conv_Key hasattr_def split: option.splits)

lemma query_entries_text:
  "\<not> isnumeric x \<Longrightarrow> conv_all rt xs = Inr ps \<Longrightarrow> getattr rt self x = None \<Longrightarrow>
   entries self = VStr e \<Longrightarrow>
     query rt self (PList (x # xs)) d = (if substring x e then Inl TypeError else Inr d)"
  by (simp add: query_def conv_Key hasattr_def)

lemma query_resolved:
  assumes "path = PList (x # xs) \<or> (path = PStr s \<and> split_slash s = x # xs)"
    and "\<not> isnumeric x"
    and "getattr rt self x = Some v \<or>
         (getattr rt self x = None \<and> entries self = VDict dd \<and> map_of dd x = Some v)"
    and "conv_all rt xs = Inr ps"
  shows "query rt self path d = reduce_getitem v ps"
  using assms query_attr [of x rt xs ps self v d] query_entry [of x rt xs ps self dd d]
  by (auto simp: query_PStr)

lemma query_unresolved:
  assumes "path = PList (x # xs) \<or> (path = PStr s \<and> split_slash s = x # xs)"
    and "\<not> isnumeric x" "\<forall>y \<in> set xs. \<not> too_long rt y"
    and "getattr rt self x = None" "entries self = VDict dd" "map_of dd x = None"
  shows "query rt self path d = Inr d"
  using assms query_entry [of x rt xs "map segment xs" self dd d] conv_all_ok [of xs rt]
  by (auto simp: query_PStr)

lemma query_entry_index:
  assumes "entries self = VDict dd" "map_of dd k = Some (VStr v)" "\<not> isnumeric k"
    "CHR ''/'' \<notin> set k" "getattr rt self k = None" "isnumeric i"
  shows "query rt self (PStr (k @ ''/'' @ i)) d =
     (if too_long rt i then Inl ValueError
      else if int_of_digits i < length v then Inr (VStr [v ! int_of_digits i]) else Inl IndexError)"
proof -
  have s: "split_slash (k @ ''/'' @ i) = [k, i]"
    using assms(4,6) by (simp add: split_slash_append split_slash_no_slash isnumeric_no_slash)
  show ?thesis
  proof (cases "too_long rt i")
    case True
    then have "query rt self (PList [k, i]) d = Inl ValueError"
      using query_too_long [of k "[i]" rt self d] by simp
    with s True show ?thesis by (simp add: query_PStr)
  next
    case False
    then have c: "conv_all rt [i] = Inr [Idx (int_of_digits i)]"
      using assms(6) by (simp add: conv_cases)
    from query_entry [OF assms(3) c assms(5) assms(1), of d] assms(2) s False
    show ?thesis by (simp add: query_PStr)
  qed
qed

section \<open>Properties of select\<close>

lemma py_int_differs: "py_int rt lhs = Some l \<Longrightarrow> py_int rt rhs = None \<Longrightarrow> lhs \<noteq> rhs"
  by auto

lemma predicate_clauses:
  "map_of selectors (resource_type obj) = Some (c # others) \<Longrightarrow>
     predicate rt selectors obj = clause_loop rt obj (c # others)"
  by (simp add: predicate_def)

lemma clause_loop_first: "clause_loop rt obj (c # others) = clause_loop rt obj [c]"
  by (cases c) simp

lemma clause_loop_query:
  "map_of (attrs obj) ''query'' = None \<Longrightarrow>
   clause_loop rt obj ((path, op, rhs) # others) =
     (case query rt obj (PStr path) VNone of
        Inl e \<Rightarrow> Inl e
      | Inr VNone \<Rightarrow> Inr False
      | Inr (VDict d) \<Rightarrow> Inl TypeError
      | Inr VObject \<Rightarrow> Inl TypeError
      | Inr (VStr lhs) \<Rightarrow>
          (case py_int rt lhs of
             None \<Rightarrow> Inr (compare_other op (lhs = rhs))
           | Some l \<Rightarrow>
               (case py_int rt rhs of
                  None \<Rightarrow> Inr (compare_other op False)
                | Some r \<Rightarrow> Inr (compare_int op l r))))"
  by simp

lemma comprehension_filter:
  "\<forall>x \<in> set xs. \<exists>b. p x = Inr b \<Longrightarrow>
     comprehension p xs = Inr (filter (\<lambda>x. p x = Inr True) xs)"
  by (induction xs) auto

lemma comprehension_first_error:
  "\<forall>y \<in> set ys. \<exists>b. p y = Inr b \<Longrightarrow> p x = Inl e \<Longrightarrow> comprehension p (ys @ x # zs) = Inl e"
  by (induction ys) auto

text \<open>
  C4 (as the claim states it, refuted): the selector \<^verbatim>\<open>node[entries=1]\<close> on a node.  The
  path \<^verbatim>\<open>entries\<close> resolves to the dictionary of the entries, which is not \<^verbatim>\<open>None\<close>;
  \<^verbatim>\<open>int()\<close> of a dictionary raises \<^verbatim>\<open>TypeError\<close>, which the handler for
  \<^verbatim>\<open>ValueError\<close> does not catch: there is no verdict by string equality.
\<close>

theorem predicate_non_string_counterexample:
  "query cpython ab_entry (PStr ''entries'') VNone = Inr (VDict [(''k'', VStr ''ab'')]) \<and>
   predicate cpython [(''node'', [(''entries'', ''='', ''1'')])] ab_entry = Inl TypeError"
  by code_simp

text \<open>
  C4 (amended): for a selector with at least one clause for the kind of the Resource,
  and a Resource whose \<^verbatim>\<open>query\<close> is the method, the first clause alone decides and the
  other clauses are not evaluated.  If the query of its path is \<^verbatim>\<open>None\<close> the Resource is
  rejected.  If the query is a string and both sides parse as integers the verdict is
  the numeric comparison of the six operators (any other operator rejects); if one of
  them does not parse, \<^verbatim>\<open>=\<close>, \<^verbatim>\<open>==\<close> and \<^verbatim>\<open>!=\<close> are decided by string equality and every
  other operator rejects.  If the query is neither \<^verbatim>\<open>None\<close> nor a string the predicate
  raises \<^verbatim>\<open>TypeError\<close>, and an error of the query itself is raised unchanged.
\<close>

theorem first_clause_decides:
  assumes sel: "map_of selectors (resource_type obj) = Some ((path, op, rhs) # others)"
    and meth: "map_of (attrs obj) ''query'' = None"
  shows "predicate rt selectors obj = predicate rt [(resource_type obj, [(path, op, rhs)])] obj \<and>
    (query rt obj (PStr path) VNone = Inr VNone \<longrightarrow> predicate rt selectors obj = Inr False) \<and>
    (query rt obj (PStr path) VNone = Inr (VStr lhs) \<and> py_int rt lhs = Some l \<and> py_int rt rhs = Some r \<longrightarrow>
       predicate rt selectors obj =
         Inr (if op = ''='' \<or> op = ''=='' then l = r
              else if op = ''>='' then l \<ge> r
              else if op = ''<='' then l \<le> r
              else if op = ''>'' then l > r
              else if op = ''<'' then l < r
              else if op = ''!='' then l \<noteq> r
              else False)) \<and>
    (query rt obj (PStr path) VNone = Inr (VStr lhs) \<and> (py_int rt lhs = None \<or> py_int rt rhs = None) \<longrightarrow>
       predicate rt selectors obj =
         Inr (if op = ''='' \<or> op = ''=='' then lhs = rhs
              else if op = ''!='' then lhs \<noteq> rhs
              else False)) \<and>
    (query rt obj (PStr path) VNone = Inr (VDict dd) \<or> query rt obj (PStr path) VNone = Inr VObject \<longrightarrow>
       predicate rt selectors obj = Inl TypeError) \<and>
    (query rt obj (PStr path) VNone = Inl e \<longrightarrow> predicate rt selectors obj = Inl e)"
proof -
  have p: "predicate rt selectors obj = clause_loop rt obj ((path, op, rhs) # others)"
    using sel by (rule predicate_clauses)
  have p1: "predicate rt [(resource_type obj, [(path, op, rhs)])] obj = clause_loop rt obj [(path, op, rhs)]"
    by (simp add: predicate_def)
  have c1: "predicate rt selectors obj = predicate rt [(resource_type obj, [(path, op, rhs)])] obj"
    using p p1 clause_loop_first [of rt obj "(path, op, rhs)" others] by simp
  note q = clause_loop_query [OF meth, of rt path op rhs others]
  have c2: "query rt obj (PStr path) VNone = Inr VNone \<longrightarrow> predicate rt selectors obj = Inr False"
    using p q by simp
  have c3: "query rt obj (PStr path) VNone = Inr (VStr lhs) \<and> py_int rt lhs = Some l \<and> py_int rt rhs = Some r \<longrightarrow>
       predicate rt selectors obj =
         Inr (if op = ''='' \<or> op = ''=='' then l = r
              else if op = ''>='' then l \<ge> r
              else if op = ''<='' then l \<le> r
              else if op = ''>'' then l > r
              else if op = ''<'' then l < r
              else if op = ''!='' then l \<noteq> r
              else False)"
    using p q by (simp add: compare_int_def)
  have c4: "query rt obj (PStr path) VNone = Inr (VStr lhs) \<and> (py_int rt lhs = None \<or> py_int rt rhs = None) \<longrightarrow>
       predicate rt selectors obj =
         Inr (if op = ''='' \<or> op = ''=='' then lhs = rhs
              else if op = ''!='' then lhs \<noteq> rhs
              else False)"
  proof
    assume h: "query rt obj (PStr path) VNone = Inr (VStr lhs) \<and> (py_int rt lhs = None \<or> py_int rt rhs = None)"
    show "predicate rt selectors obj =
         Inr (if op = ''='' \<or> op = ''=='' then lhs = rhs
              else if op = ''!='' then lhs \<noteq> rhs
              else False)"
    proof (cases "py_int rt lhs")
      case None
      with h p q show ?thesis by (simp add: compare_other_def)
    next
      case (Some l')
      with h have r: "py_int rt rhs = None" by simp
      with Some have "lhs \<noteq> rhs" by (rule py_int_differs)
      with h p q Some r show ?thesis by (simp add: compare_other_def)
    qed
  qed
  have c5: "query rt obj (PStr path) VNone = Inr (VDict dd) \<or> query rt obj (PStr path) VNone = Inr VObject \<longrightarrow>
       predicate rt selectors obj = Inl TypeError"
    using p q by auto
  have c6: "query rt obj (PStr path) VNone = Inl e \<longrightarrow> predicate rt selectors obj = Inl e"
    using p q by simp
  from c1 c2 c3 c4 c5 c6 show ?thesis by blast
qed

theorem first_clause_decides_witness:
  "(map_of hp_selector (resource_type health) = Some ((''hp'', ''>='', ''50'') # [(''name'', ''='', ''Nobody'')]) \<and>
    map_of (attrs health) ''query'' = None \<and>
    query cpython health (PStr ''hp'') VNone = Inr (VStr ''50'') \<and>
    py_int cpython ''50'' = Some 50 \<and>
    predicate cpython hp_selector health = Inr True) \<and>
   (map_of missing_selector (resource_type health) = Some ((''missing'', ''='', ''1'') # []) \<and>
    query cpython health (PStr ''missing'') VNone = Inr VNone \<and>
    predicate cpython missing_selector health = Inr False) \<and>
   (map_of name_selector (resource_type health) = Some ((''name'', ''<'', ''Health'') # []) \<and>
    query cpython health (PStr ''name'') VNone = Inr (VStr ''Health'') \<and>
    py_int cpython ''Health'' = None \<and>
    predicate cpython name_selector health = Inr False) \<and>
   (map_of entries_selector (resource_type ab_entry) = Some ((''entries'', ''='', ''1'') # []) \<and>
    map_of (attrs ab_entry) ''query'' = None \<and>
    query cpython ab_entry (PStr ''entries'') VNone = Inr (VDict [(''k'', VStr ''ab'')]) \<and>
    predicate cpython entries_selector ab_entry = Inl TypeError) \<and>
   (map_of range_selector (resource_type ab_entry) = Some ((''k/5'', ''='', ''1'') # []) \<and>
    query cpython ab_entry (PStr ''k/5'') VNone = Inl IndexError \<and>
    predicate cpython range_selector ab_entry = Inl IndexError)"
proof -
  have m: "map_of (attrs health) ''query'' = None" "map_of (attrs ab_entry) ''query'' = None"
    by code_simp+
  have a1: "map_of hp_selector (resource_type health) =
      Some ((''hp'', ''>='', ''50'') # [(''name'', ''='', ''Nobody'')])" by code_simp
  have b1: "query cpython health (PStr ''hp'') VNone = Inr (VStr ''50'') \<and>
      py_int cpython ''50'' = Some 50 \<and> py_int cpython ''50'' = Some 50" by code_simp
  note t1 = first_clause_decides [OF a1 m(1), where rt = cpython and lhs = "''50''" and l = 50 and r = 50]
  from t1 [THEN conjunct2, THEN conjunct2, THEN conjunct1] b1
  have c1: "predicate cpython hp_selector health = Inr True" by simp
  have a2: "map_of missing_selector (resource_type health) = Some ((''missing'', ''='', ''1'') # [])"
    by code_simp
  have b2: "query cpython health (PStr ''missing'') VNone = Inr VNone" by code_simp
  note t2 = first_clause_decides [OF a2 m(1), where rt = cpython]
  from t2 [THEN conjunct2, THEN conjunct1] b2
  have c2: "predicate cpython missing_selector health = Inr False" by blast
  have a3: "map_of name_selector (resource_type health) = Some ((''name'', ''<'', ''Health'') # [])"
    by code_simp
  have b3: "query cpython health (PStr ''name'') VNone = Inr (VStr ''Health'') \<and>
      py_int cpython ''Health'' = None" by code_simp
  note t3 = first_clause_decides [OF a3 m(1), where rt = cpython and lhs = "''Health''"]
  from t3 [THEN conjunct2, THEN conjunct2, THEN conjunct2, THEN conjunct1] b3
  have c3: "predicate cpython name_selector health = Inr False" by simp
  have a4: "map_of entries_selector (resource_type ab_entry) = Some ((''entries'', ''='', ''1'') # [])"
    by code_simp
  have b4: "query cpython ab_entry (PStr ''entries'') VNone = Inr (VDict [(''k'', VStr ''ab'')])"
    by code_simp
  note t4 = first_clause_decides [OF a4 m(2), where rt = cpython and dd = "[(''k'', VStr ''ab'')]"]
  from t4 [THEN conjunct2, THEN conjunct2, THEN conjunct2, THEN conjunct2, THEN conjunct1] b4
  have c4: "predicate cpython entries_selector ab_entry = Inl TypeError" by blast
  have a5: "map_of range_selector (resource_type ab_entry) = Some ((''k/5'', ''='', ''1'') # [])"
    by code_simp
  have b5: "query cpython ab_entry (PStr ''k/5'') VNone = Inl IndexError" by code_simp
  note t5 = first_clause_decides [OF a5 m(2), where rt = cpython and e = IndexError]
  from t5 [THEN conjunct2, THEN conjunct2, THEN conjunct2, THEN conjunct2, THEN conjunct2] b5
  have c5: "predicate cpython range_selector ab_entry = Inl IndexError" by blast
  from m a1 b1 c1 a2 b2 c2 a3 b3 c3 a4 b4 c4 a5 b5 c5 show ?thesis by blast
qed

section \<open>Properties of the parser\<close>

lemma add_by_type_unknown:
  "rtype \<notin> set types \<Longrightarrow> rtype \<noteq> ''gd_scene'' \<Longrightarrow> rtype \<noteq> ''resources'' \<Longrightarrow>
     add_by_type rt rtype a doc =
       Inl (if (rtype = ''scene'' \<and> scene doc \<noteq> None) \<or> doc_class rt rtype then TypeError
            else AttributeError)"
  by (simp add: add_by_type_def types_def)

lemma header_line_unknown:
  "rtype \<notin> set types \<Longrightarrow> rtype \<noteq> ''gd_scene'' \<Longrightarrow> rtype \<noteq> ''resources'' \<Longrightarrow>
     header_line rt rtype rest' doc =
       (case TSCNResource rt rtype (header_attrs rest') of
          Inl e \<Rightarrow> Inl e
        | Inr rsc \<Rightarrow>
            Inl (if (rtype = ''scene'' \<and> scene doc \<noteq> None) \<or> doc_class rt rtype then TypeError
                 else AttributeError))"
  by (simp add: header_line_def add_by_type_unknown Let_def types_def split: sum.splits)

lemma parse_line_unknown:
  assumes "group line 1 \<noteq> []" "group line 1 \<notin> set types" "group line 1 \<noteq> ''gd_scene''"
    "group line 1 \<noteq> ''resources''"
  shows "\<exists>e. parse_line rt line s = Inl e"
  using assms header_line_unknown [of "group line 1" rt "group line 2" "fst s"]
  by (auto simp: parse_line_def Let_def split: sum.splits)

lemma parse_lines_unknown:
  assumes "line \<in> set lines" "group line 1 \<noteq> []" "group line 1 \<notin> set types"
    "group line 1 \<noteq> ''gd_scene''" "group line 1 \<noteq> ''resources''"
  shows "\<exists>e. parse_lines rt lines s = Inl e"
  using assms(1)
proof (induction lines arbitrary: s)
  case Nil
  then show ?case by simp
next
  case (Cons l ls)
  show ?case
  proof (cases "parse_line rt l s")
    case (Inl e)
    then show ?thesis by simp
  next
    case (Inr s')
    with parse_line_unknown [OF assms(2,3,4,5), of rt s] have "l \<noteq> line" by auto
    with Cons(2) have "line \<in> set ls" by simp
    from Cons(1) [OF this, of s'] Inr show ?thesis by simp
  qed
qed

lemma parse_lines_body_first:
  "group line 1 = [] \<Longrightarrow> parse_lines rt (line # others) (doc, None) = Inl AttributeError"
  by (simp add: parse_line_def body_line_def Let_def)

lemma body_line_stores:
  assumes "body_line key v doc (Some a) = Inr (doc', rsc')" "a < length (heap doc)"
  shows "\<exists>d. entries (heap doc' ! a) = VDict d \<and> map_of d key = Some (VStr (stored_value v))"
  using assms
  by (auto simp: body_line_def Let_def update_conv' split: pyval.splits)

lemma header_attrs_empty: "header_attrs [] = []"
  by (simp add: header_attrs_def findall_def scan.simps pairs_re_def cats_def plus_def start_def)

lemma TSCNResource_no_attrs:
  "TSCNResource rt rtype [] = Inr \<lparr>resource_type = rtype, entries = VDict [], attrs = []\<rparr>"
  by (simp add: TSCNResource_def)

lemma setattr_instance:
  "setattr rt r k v = Inr r' \<Longrightarrow>
     instance_attr r' k' = (if k' = k then Some (VStr v) else instance_attr r k')"
  by (auto simp: setattr_def instance_attr_def update_conv' split: option.splits if_splits)

lemma set_all_keeps:
  "set_all rt r kvs = Inr r' \<Longrightarrow> k \<notin> fst ` set kvs \<Longrightarrow> instance_attr r' k = instance_attr r k"
proof (induction kvs arbitrary: r)
  case Nil
  then show ?case by simp
next
  case (Cons kv kvs)
  obtain k0 v0 where kv: "kv = (k0, v0)" by (cases kv)
  from Cons(2) kv obtain r1 where r1: "setattr rt r k0 v0 = Inr r1" "set_all rt r1 kvs = Inr r'"
    by (auto split: sum.splits)
  from Cons(3) kv have "k \<noteq> k0" "k \<notin> fst ` set kvs" by auto
  with Cons(1) [OF r1(2)] setattr_instance [OF r1(1), of k] show ?case by simp
qed

lemma set_all_sets:
  "set_all rt r kvs = Inr r' \<Longrightarrow> distinct (map fst kvs) \<Longrightarrow> (k, v) \<in> set kvs \<Longrightarrow>
     instance_attr r' k = Some (VStr v)"
proof (induction kvs arbitrary: r)
  case Nil
  then show ?case by simp
next
  case (Cons kv kvs)
  obtain k0 v0 where kv: "kv = (k0, v0)" by (cases kv)
  from Cons(2) kv obtain r1 where r1: "setattr rt r k0 v0 = Inr r1" "set_all rt r1 kvs = Inr r'"
    by (auto split: sum.splits)
  from Cons(3) kv have d: "k0 \<notin> fst ` set kvs" "distinct (map fst kvs)" by auto
  show ?case
  proof (cases "(k, v) \<in> set kvs")
    case True
    from Cons(1) [OF r1(2) d(2) True] show ?thesis .
  next
    case False
    with Cons(4) kv have e: "k = k0" "v = v0" by auto
    from set_all_keeps [OF r1(2) d(1)] setattr_instance [OF r1(1), of k0] e
    show ?thesis by simp
  qed
qed

lemma distinct_fold_update:
  "distinct (map fst d) \<Longrightarrow> distinct (map fst (foldl (\<lambda>d p. AList.update (f p) (g p) d) d ps))"
  by (induction ps arbitrary: d) (simp_all add: distinct_update)

lemma find_snoc:
  "find P (xs @ [x]) = (case find P xs of Some y \<Rightarrow> Some y | None \<Rightarrow> if P x then Some x else None)"
  by (induction xs) auto

lemma map_of_fold_update:
  "map_of (foldl (\<lambda>d p. AList.update (f p) (g p) d) d ps) k =
     (case find (\<lambda>p. f p = k) (rev ps) of Some p \<Rightarrow> Some (g p) | None \<Rightarrow> map_of d k)"
proof (induction ps arbitrary: d)
  case Nil
  then show ?case by simp
next
  case (Cons p ps)
  show ?case
    by (simp add: Cons find_snoc update_conv' split: option.splits)
qed

lemma header_attrs_value:
  "find (\<lambda>p. group p 1 = k) (rev (findall pairs_re rest')) = Some p \<Longrightarrow>
     map_of (header_attrs rest') k = Some (filter (\<lambda>c. c \<noteq> dq) (group p 2))"
  by (simp add: header_attrs_def map_of_fold_update)

lemma header_attrs_distinct: "distinct (map fst (header_attrs rest'))"
  unfolding header_attrs_def by (rule distinct_fold_update) simp

lemma TSCNResource_attr:
  assumes "TSCNResource rt rtype attr = Inr r" "distinct (map fst attr)" "map_of attr k = Some v"
  shows "getattr rt r k = Some (VStr v)"
proof -
  from assms(1) have s: "set_all rt \<lparr>resource_type = rtype, entries = VDict [], attrs = []\<rparr> attr = Inr r"
    by (simp add: TSCNResource_def split: if_splits)
  from assms(3) have "(k, v) \<in> set attr" by (rule map_of_SomeD)
  from set_all_sets [OF s assms(2) this] show ?thesis by (simp add: getattr_def)
qed

lemma add_by_type_heap: "add_by_type rt rtype a doc = Inr doc' \<Longrightarrow> heap doc' = heap doc"
  by (auto simp: add_by_type_def split: if_splits)

lemma header_line_heap:
  assumes "header_line rt rtype rest' doc = Inr (doc', rsc)"
  shows "\<exists>r. TSCNResource rt rtype (header_attrs rest') = Inr r \<and> heap doc' = heap doc @ [r] \<and>
             rsc = Some (length (heap doc))"
  using assms
  by (auto simp: header_line_def Let_def dest!: add_by_type_heap split: sum.splits if_splits)

lemma header_line_attr:
  assumes "header_line rt rtype rest' doc = Inr (doc', rsc)"
    and "find (\<lambda>p. group p 1 = k) (rev (findall pairs_re rest')) = Some p"
  shows "rsc = Some (length (heap doc)) \<and>
     getattr rt (heap doc' ! length (heap doc)) k = Some (VStr (filter (\<lambda>c. c \<noteq> dq) (group p 2)))"
proof -
  from header_line_heap [OF assms(1)] obtain r where
    r: "TSCNResource rt rtype (header_attrs rest') = Inr r" "heap doc' = heap doc @ [r]"
       "rsc = Some (length (heap doc))" by auto
  from TSCNResource_attr [OF r(1) header_attrs_distinct header_attrs_value [OF assms(2)]] r(2,3)
  show ?thesis by simp
qed

lemma setattr_text: "setattr rt r k v = Inr r' \<Longrightarrow> text_entries r \<Longrightarrow> text_entries r'"
  by (auto simp: setattr_def text_entries_def split: option.splits if_splits)

lemma set_all_text: "set_all rt r kvs = Inr r' \<Longrightarrow> text_entries r \<Longrightarrow> text_entries r'"
proof (induction kvs arbitrary: r)
  case Nil
  then show ?case by simp
next
  case (Cons kv kvs)
  obtain k0 v0 where kv: "kv = (k0, v0)" by (cases kv)
  from Cons(2) kv obtain r1 where r1: "setattr rt r k0 v0 = Inr r1" "set_all rt r1 kvs = Inr r'"
    by (auto split: sum.splits)
  from Cons(1) [OF r1(2) setattr_text [OF r1(1) Cons(3)]] show ?case .
qed

lemma TSCNResource_text: "TSCNResource rt rtype attr = Inr r \<Longrightarrow> text_entries r"
proof -
  assume "TSCNResource rt rtype attr = Inr r"
  then have "set_all rt \<lparr>resource_type = rtype, entries = VDict [], attrs = []\<rparr> attr = Inr r"
    by (simp add: TSCNResource_def split: if_splits)
  then show ?thesis by (rule set_all_text) (simp add: text_entries_def)
qed

lemma header_line_text:
  assumes "header_line rt rtype rest' doc = Inr (doc', rsc)" "\<forall>r \<in> set (heap doc). text_entries r"
  shows "\<forall>r \<in> set (heap doc'). text_entries r"
  using header_line_heap [OF assms(1)] assms(2) TSCNResource_text by auto

lemma body_line_text:
  assumes "body_line key v doc rsc = Inr (doc', rsc')" "\<forall>r \<in> set (heap doc). text_entries r"
  shows "\<forall>r \<in> set (heap doc'). text_entries r"
proof -
  from assms(1) obtain a d where a: "rsc = Some a" "entries (heap doc ! a) = VDict d"
    "heap doc' = (heap doc)[a := (heap doc ! a)\<lparr>entries := VDict (AList.update key (VStr (stored_value v)) d)\<rparr>]"
    by (auto simp: body_line_def Let_def split: option.splits pyval.splits)
  show ?thesis
  proof (cases "a < length (heap doc)")
    case False
    then have "(heap doc)[a := (heap doc ! a)\<lparr>entries := VDict (AList.update key (VStr (stored_value v)) d)\<rparr>] = heap doc"
      by (simp add: list_update_beyond)
    with a(3) assms(2) show ?thesis by simp
  next
    case True
    then have "heap doc ! a \<in> set (heap doc)" by simp
    with assms(2) a(2) have "\<forall>k w. map_of d k = Some w \<longrightarrow> (\<exists>v. w = VStr v)"
      by (auto simp: text_entries_def)
    then have "text_entries ((heap doc ! a)\<lparr>entries := VDict (AList.update key (VStr (stored_value v)) d)\<rparr>)"
      by (simp add: text_entries_def update_conv')
    with a(3) assms(2) show ?thesis
      using set_update_subset_insert [of "heap doc" a] by auto
  qed
qed

lemma parse_line_text:
  assumes "parse_line rt line s = Inr s'" "\<forall>r \<in> set (heap (fst s)). text_entries r"
  shows "\<forall>r \<in> set (heap (fst s')). text_entries r"
proof (cases "length (group line 1) \<noteq> 0")
  case True
  with assms(1) have "header_line rt (group line 1) (group line 2) (fst s) = Inr (fst s', snd s')"
    by (simp add: parse_line_def Let_def)
  from header_line_text [OF this assms(2)] show ?thesis .
next
  case False
  with assms(1) have "body_line (group line 3) (group line 4) (fst s) (snd s) = Inr (fst s', snd s')"
    by (simp add: parse_line_def Let_def)
  from body_line_text [OF this assms(2)] show ?thesis .
qed

lemma parse_lines_text:
  "parse_lines rt lines s = Inr doc \<Longrightarrow> \<forall>r \<in> set (heap (fst s)). text_entries r \<Longrightarrow>
     \<forall>r \<in> set (heap doc). text_entries r"
proof (induction lines arbitrary: s)
  case Nil
  then show ?case by simp
next
  case (Cons l ls)
  from Cons(2) obtain s' where s': "parse_line rt l s = Inr s'" "parse_lines rt ls s' = Inr doc"
    by (auto split: sum.splits)
  from Cons(1) [OF s'(2) parse_line_text [OF s'(1) Cons(3)]] show ?case .
qed

lemma TSCN_text: "TSCN rt data = Inr doc \<Longrightarrow> r \<in> set (heap doc) \<Longrightarrow> text_entries r"
  using parse_lines_text [of rt "findall lines_re data" "(init, None)" doc]
  by (simp add: TSCN_def parse_file_def init_def)

lemma TSCNResource_type: "TSCNResource rt rtype attr = Inr r \<Longrightarrow> resource_type r = rtype"
proof -
  assume a: "TSCNResource rt rtype attr = Inr r"
  then have s: "set_all rt \<lparr>resource_type = rtype, entries = VDict [], attrs = []\<rparr> attr = Inr r"
    and n: "map_of attr ''resource_type'' = None"
    by (auto simp: TSCNResource_def split: if_splits)
  from n have "''resource_type'' \<notin> fst ` set attr" by (simp add: map_of_eq_None_iff)
  from set_all_keeps [OF s this] show ?thesis by (simp add: instance_attr_def)
qed

lemma header_line_resources:
  "header_line rt rtype rest' doc = Inr (doc', rsc) \<Longrightarrow>
     resources doc' = resources doc @
       (if rtype = ''resources'' then [length (heap doc), length (heap doc)] else [length (heap doc)])"
  by (auto simp: header_line_def add_by_type_def Let_def split: sum.splits if_splits)

lemma header_line_objects:
  assumes "header_line rt rtype rest' doc = Inr (doc', rsc)"
    and "\<forall>a \<in> set (resources doc). a < length (heap doc)"
  shows "(\<forall>a \<in> set (resources doc'). a < length (heap doc')) \<and>
     map resource_type (objects doc') = map resource_type (objects doc) @
       (if rtype = ''resources'' then [rtype, rtype] else [rtype])"
proof -
  from header_line_heap [OF assms(1)] obtain r where
    r: "TSCNResource rt rtype (header_attrs rest') = Inr r" "heap doc' = heap doc @ [r]" by auto
  note t = TSCNResource_type [OF r(1)]
  note rs = header_line_resources [OF assms(1)]
  have old: "map (\<lambda>a. (heap doc @ [r]) ! a) (resources doc) = map (\<lambda>a. heap doc ! a) (resources doc)"
    using assms(2) by (simp add: nth_append)
  show ?thesis
    using assms(2) r(2) rs t old by (auto simp: objects_def)
qed

lemma body_line_objects:
  assumes "body_line key v doc rsc = Inr (doc', rsc')"
    and "\<forall>a \<in> set (resources doc). a < length (heap doc)"
  shows "(\<forall>a \<in> set (resources doc'). a < length (heap doc')) \<and>
     map resource_type (objects doc') = map resource_type (objects doc)"
proof -
  from assms(1) obtain a d where a: "rsc = Some a" "resources doc' = resources doc"
    "heap doc' = (heap doc)[a := (heap doc ! a)\<lparr>entries := VDict (AList.update key (VStr (stored_value v)) d)\<rparr>]"
    by (auto simp: body_line_def Let_def split: option.splits pyval.splits)
  have "\<And>b. b < length (heap doc) \<Longrightarrow> resource_type (heap doc' ! b) = resource_type (heap doc ! b)"
  proof (cases "a < length (heap doc)")
    case True
    fix b
    from True a(3) show "resource_type (heap doc' ! b) = resource_type (heap doc ! b)"
      by (cases "a = b") (simp_all add: nth_list_update)
  next
    case False
    fix b
    from False a(3) show "resource_type (heap doc' ! b) = resource_type (heap doc ! b)"
      by (simp add: list_update_beyond)
  qed
  with assms(2) a(2,3) show ?thesis by (simp add: objects_def)
qed

lemma parse_line_objects:
  assumes "parse_line rt line s = Inr s'"
    and "\<forall>a \<in> set (resources (fst s)). a < length (heap (fst s))"
  shows "(\<forall>a \<in> set (resources (fst s')). a < length (heap (fst s'))) \<and>
     map resource_type (objects (fst s')) = map resource_type (objects (fst s)) @ created line"
proof (cases "length (group line 1) \<noteq> 0")
  case True
  with assms(1) have "header_line rt (group line 1) (group line 2) (fst s) = Inr (fst s', snd s')"
    by (simp add: parse_line_def Let_def)
  from header_line_objects [OF this assms(2)] True show ?thesis by (simp add: created_def)
next
  case False
  with assms(1) have "body_line (group line 3) (group line 4) (fst s) (snd s) = Inr (fst s', snd s')"
    by (simp add: parse_line_def Let_def)
  from body_line_objects [OF this assms(2)] False show ?thesis by (simp add: created_def)
qed

lemma parse_lines_objects:
  "parse_lines rt lines s = Inr doc \<Longrightarrow>
   \<forall>a \<in> set (resources (fst s)). a < length (heap (fst s)) \<Longrightarrow>
     map resource_type (objects doc) = map resource_type (objects (fst s)) @ concat (map created lines)"
proof (induction lines arbitrary: s)
  case Nil
  then show ?case by simp
next
  case (Cons l ls)
  from Cons(2) obtain s' where s': "parse_line rt l s = Inr s'" "parse_lines rt ls s' = Inr doc"
    by (auto split: sum.splits)
  note step = parse_line_objects [OF s'(1) Cons(3)]
  from Cons(1) [OF s'(2)] step show ?case by simp
qed

lemma TSCN_objects:
  "TSCN rt data = Inr doc \<Longrightarrow>
     map resource_type (objects doc) = concat (map created (findall lines_re data))"
  using parse_lines_objects [of rt "findall lines_re data" "(init, None)" doc]
  by (simp add: TSCN_def parse_file_def init_def objects_def)

section \<open>Selector compilation and selection\<close>

lemma Selector_parse_cases:
  "Selector_parse (SStr s) =
     (if kind_stop (dropWhile (\<lambda>c. c \<noteq> CHR ''['' \<and> c \<noteq> nl) s)
      then Inr [(takeWhile (\<lambda>c. c \<noteq> CHR ''['' \<and> c \<noteq> nl) s,
                 foldl (\<lambda>attrs q. AList.update (group q 1) (group q 2, group q 3) attrs) []
                   (findall queries_re s))]
      else Inl ValueError)"
proof (cases "kind_stop (dropWhile (\<lambda>c. c \<noteq> CHR ''['' \<and> c \<noteq> nl) s)")
  case True
  with re_match_type [of s] obtain m where
    m: "re_match type_re s = Some m" "rest m = dropWhile (\<lambda>c. c \<noteq> CHR ''['' \<and> c \<noteq> nl) s"
    by (auto simp: Let_def)
  from matched_takeWhile [OF m(2)] m(1) True show ?thesis
    by (simp add: Selector_parse_def)
next
  case False
  with re_match_type [of s] have "re_match type_re s = None" by (auto simp: Let_def)
  with False show ?thesis by (simp add: Selector_parse_def)
qed

lemma kind_stop_no_nl:
  "nl \<notin> set s \<Longrightarrow> kind_stop (dropWhile (\<lambda>c. c \<noteq> CHR ''['' \<and> c \<noteq> nl) s)"
  by (induction s) (auto simp: kind_stop_def)

lemma takeWhile_no_nl:
  "nl \<notin> set s \<Longrightarrow>
     takeWhile (\<lambda>c. c \<noteq> CHR ''['' \<and> c \<noteq> nl) s = takeWhile (\<lambda>c. c \<noteq> CHR ''['') s"
  by (rule takeWhile_cong) auto

text \<open>
  C7 (as the claim states it, refuted): the string \<^verbatim>\<open>a\<close>, line break, \<^verbatim>\<open>b\<close> is a string
  source, and its compilation fails with the invalid-selector error: the dot of the
  type expression does not match the line break and the lookahead does not succeed
  before it.
\<close>

theorem selector_newline_counterexample:
  "Selector_parse (SStr (''a'' @ [nl] @ ''b'')) = Inl ValueError"
  by code_simp

text \<open>
  C7 (amended): compilation fails with the invalid-selector error (\<^verbatim>\<open>ValueError\<close>) for
  every source that is not a string, and for a string exactly when the text before
  its first opening bracket contains a line break that is not the last character of
  the string.  For every string without a line break it succeeds and maps the text
  before the first bracket to the clause mapping, which is empty when the string has no
  bracket; with an empty clause mapping every Resource of that kind matches.
\<close>

theorem selector_compile:
  "Selector_parse SOther = Inl ValueError \<and>
   (Selector_parse (SStr s) = Inl ValueError \<longleftrightarrow>
      \<not> kind_stop (dropWhile (\<lambda>c. c \<noteq> CHR ''['' \<and> c \<noteq> nl) s)) \<and>
   (nl \<notin> set s \<longrightarrow>
      (\<exists>attrs. Selector_parse (SStr s) = Inr [(takeWhile (\<lambda>c. c \<noteq> CHR ''['') s, attrs)])) \<and>
   (nl \<notin> set s \<and> CHR ''['' \<notin> set s \<longrightarrow> Selector_parse (SStr s) = Inr [(s, [])]) \<and>
   predicate rt [(kind, [])] obj = Inr (resource_type obj = kind)"
proof -
  have a: "Selector_parse SOther = Inl ValueError" by (simp add: Selector_parse_def)
  have b: "Selector_parse (SStr s) = Inl ValueError \<longleftrightarrow>
      \<not> kind_stop (dropWhile (\<lambda>c. c \<noteq> CHR ''['' \<and> c \<noteq> nl) s)"
    by (simp add: Selector_parse_cases)
  have c: "nl \<notin> set s \<longrightarrow>
      (\<exists>attrs. Selector_parse (SStr s) = Inr [(takeWhile (\<lambda>c. c \<noteq> CHR ''['') s, attrs)])"
    by (simp add: Selector_parse_cases kind_stop_no_nl takeWhile_no_nl)
  have d: "nl \<notin> set s \<and> CHR ''['' \<notin> set s \<longrightarrow> Selector_parse (SStr s) = Inr [(s, [])]"
  proof
    assume h: "nl \<notin> set s \<and> CHR ''['' \<notin> set s"
    then have "findall queries_re s = []"
      by (simp add: findall_def scan_queries_none start_def)
    moreover from h have "takeWhile (\<lambda>c. c \<noteq> CHR ''['') s = s"
      by (auto simp: takeWhile_eq_all_conv)
    ultimately show "Selector_parse (SStr s) = Inr [(s, [])]"
      using h by (simp add: Selector_parse_cases kind_stop_no_nl takeWhile_no_nl)
  qed
  have e: "predicate rt [(kind, [])] obj = Inr (resource_type obj = kind)"
    by (simp add: predicate_def)
  from a b c d e show ?thesis by blast
qed

theorem selector_compile_witness:
  "(nl \<notin> set ''node'' \<and> CHR ''['' \<notin> set ''node'') \<and>
   Selector_parse (SStr ''node'') = Inr [(''node'', [])]"
proof -
  have h: "nl \<notin> set ''node'' \<and> CHR ''['' \<notin> set ''node''" by (simp add: nl_def)
  note t = selector_compile [of "''node''" cpython "''node''" health]
  from t [THEN conjunct2, THEN conjunct2, THEN conjunct2, THEN conjunct1] h
  have "Selector_parse (SStr ''node'') = Inr [(''node'', [])]" by blast
  with h show ?thesis by blast
qed

text \<open>
  C6 (as the claim states it, refuted): the file of one node with the entry \<^verbatim>\<open>k = ab\<close>
  and the selector \<^verbatim>\<open>node[entries=1]\<close>, which compiles.  The predicate raises
  \<^verbatim>\<open>TypeError\<close> on the node, and \<^verbatim>\<open>select\<close> raises it: it returns neither a list nor
  \<^verbatim>\<open>None\<close>.
\<close>

theorem select_raises_counterexample:
  "TSCN cpython ab_text = Inr (one_node ab_entry) \<and>
   Selector_parse (SStr ''node[entries=1]'') = Inr entries_selector \<and>
   select cpython (one_node ab_entry) (SelStr ''node[entries=1]'') = Inl TypeError"
  by code_simp

text \<open>
  C6 (amended): for a selector that is compiled or compiles from its string, when the
  predicate returns a verdict for every Resource of the document, \<^verbatim>\<open>select\<close> returns the
  Resources for which it holds, in the order of the flat list, as a list when there
  is at least one and \<^verbatim>\<open>None\<close> when there is none; when the predicate raises on a
  Resource, \<^verbatim>\<open>select\<close> raises the error of the first such Resource, and a string that
  does not compile raises the error of the compilation.  The flat list of a parsed
  document is in file order: its kinds are the kinds of the header lines, in order.
\<close>

theorem select_result:
  assumes "selectors = SelDict sel \<or> (selectors = SelStr s \<and> Selector_parse (SStr s) = Inr sel)"
  shows "((\<forall>obj \<in> set (objects doc). \<exists>b. predicate rt sel obj = Inr b) \<longrightarrow>
       select rt doc selectors =
         Inr (if filter (\<lambda>obj. predicate rt sel obj = Inr True) (objects doc) = [] then None
              else Some (filter (\<lambda>obj. predicate rt sel obj = Inr True) (objects doc)))) \<and>
     (objects doc = ys @ obj # zs \<and> (\<forall>y \<in> set ys. \<exists>b. predicate rt sel y = Inr b) \<and>
      predicate rt sel obj = Inl e \<longrightarrow>
        select rt doc selectors = Inl e) \<and>
     (Selector_parse (SStr s') = Inl e' \<longrightarrow> select rt doc (SelStr s') = Inl e') \<and>
     (TSCN rt data = Inr doc \<longrightarrow>
        map resource_type (objects doc) = concat (map created (findall lines_re data)))"
proof -
  have a: "(\<forall>obj \<in> set (objects doc). \<exists>b. predicate rt sel obj = Inr b) \<longrightarrow>
       select rt doc selectors =
         Inr (if filter (\<lambda>obj. predicate rt sel obj = Inr True) (objects doc) = [] then None
              else Some (filter (\<lambda>obj. predicate rt sel obj = Inr True) (objects doc)))"
    using assms comprehension_filter [of "objects doc" "predicate rt sel"]
    by (auto simp: select_def)
  have b: "objects doc = ys @ obj # zs \<and> (\<forall>y \<in> set ys. \<exists>b. predicate rt sel y = Inr b) \<and>
      predicate rt sel obj = Inl e \<longrightarrow>
        select rt doc selectors = Inl e"
    using assms comprehension_first_error [of ys "predicate rt sel" obj e zs]
    by (auto simp: select_def)
  have c: "Selector_parse (SStr s') = Inl e' \<longrightarrow> select rt doc (SelStr s') = Inl e'"
    by (simp add: select_def)
  have d: "TSCN rt data = Inr doc \<longrightarrow>
        map resource_type (objects doc) = concat (map created (findall lines_re data))"
    using TSCN_objects [of rt data doc] by blast
  from a b c d show ?thesis by blast
qed

theorem select_result_witness:
  "(Selector_parse (SStr ''node[name=Health]'') = Inr [(''node'', [(''name'', ''='', ''Health'')])] \<and>
    objects three_doc =
      [node_named ''Area'' [], node_named ''Health'' [(''StartHealth'', VStr ''100'')],
       node_named ''Loot'' []] \<and>
    predicate cpython [(''node'', [(''name'', ''='', ''Health'')])] (node_named ''Area'' []) = Inr False \<and>
    predicate cpython [(''node'', [(''name'', ''='', ''Health'')])]
      (node_named ''Health'' [(''StartHealth'', VStr ''100'')]) = Inr True \<and>
    predicate cpython [(''node'', [(''name'', ''='', ''Health'')])] (node_named ''Loot'' []) = Inr False \<and>
    TSCN cpython three_nodes = Inr three_doc) \<and>
   select cpython three_doc (SelStr ''node[name=Health]'') =
     Inr (Some [node_named ''Health'' [(''StartHealth'', VStr ''100'')]]) \<and>
   map resource_type (objects three_doc) = [''node'', ''node'', ''node''] \<and>
   (Selector_parse (SStr ''node[entries=1]'') = Inr entries_selector \<and>
    objects (one_node ab_entry) = [] @ ab_entry # [] \<and>
    predicate cpython entries_selector ab_entry = Inl TypeError) \<and>
   select cpython (one_node ab_entry) (SelStr ''node[entries=1]'') = Inl TypeError \<and>
   Selector_parse (SStr (''a'' @ [nl] @ ''b'')) = Inl ValueError \<and>
   select cpython three_doc (SelStr (''a'' @ [nl] @ ''b'')) = Inl ValueError"
proof -
  let ?sel = "[(''node'', [(''name'', ''='', ''Health'')])]"
  have p: "Selector_parse (SStr ''node[name=Health]'') = Inr ?sel" by code_simp
  have o: "objects three_doc =
      [node_named ''Area'' [], node_named ''Health'' [(''StartHealth'', VStr ''100'')], node_named ''Loot'' []]"
    by code_simp
  have v: "predicate cpython ?sel (node_named ''Area'' []) = Inr False"
    "predicate cpython ?sel (node_named ''Health'' [(''StartHealth'', VStr ''100'')]) = Inr True"
    "predicate cpython ?sel (node_named ''Loot'' []) = Inr False"
    by code_simp+
  have t: "TSCN cpython three_nodes = Inr three_doc" by code_simp
  have l: "concat (map created (findall lines_re three_nodes)) = [''node'', ''node'', ''node'']"
    by code_simp
  have h1: "SelStr ''node[name=Health]'' = SelDict ?sel \<or>
      (SelStr ''node[name=Health]'' = SelStr ''node[name=Health]'' \<and>
       Selector_parse (SStr ''node[name=Health]'') = Inr ?sel)"
    using p by simp
  have h2: "\<forall>obj \<in> set (objects three_doc). \<exists>b. predicate cpython ?sel obj = Inr b"
    using o v by auto
  note r = select_result [OF h1, where rt = cpython and doc = three_doc and data = three_nodes
      and s' = "''a'' @ [nl] @ ''b''" and e' = ValueError]
  have f: "filter (\<lambda>obj. predicate cpython ?sel obj = Inr True) (objects three_doc) =
      [node_named ''Health'' [(''StartHealth'', VStr ''100'')]]"
    unfolding o using v by simp
  from r [THEN conjunct1] h2 have s: "select cpython three_doc (SelStr ''node[name=Health]'') =
     Inr (Some [node_named ''Health'' [(''StartHealth'', VStr ''100'')]])"
    unfolding f by simp
  from r [THEN conjunct2, THEN conjunct2, THEN conjunct2] t have "map resource_type (objects three_doc) =
      concat (map created (findall lines_re three_nodes))" by blast
  with l have k: "map resource_type (objects three_doc) = [''node'', ''node'', ''node'']"
    by (simp only:)
  have n: "Selector_parse (SStr (''a'' @ [nl] @ ''b'')) = Inl ValueError" by code_simp
  from r [THEN conjunct2, THEN conjunct2, THEN conjunct1] n
  have c: "select cpython three_doc (SelStr (''a'' @ [nl] @ ''b'')) = Inl ValueError" by blast
  have q: "Selector_parse (SStr ''node[entries=1]'') = Inr entries_selector" by code_simp
  have oa: "objects (one_node ab_entry) = [] @ ab_entry # []" by code_simp
  have pa: "predicate cpython entries_selector ab_entry = Inl TypeError" by code_simp
  have h3: "SelStr ''node[entries=1]'' = SelDict entries_selector \<or>
      (SelStr ''node[entries=1]'' = SelStr ''node[entries=1]'' \<and>
       Selector_parse (SStr ''node[entries=1]'') = Inr entries_selector)"
    using q by simp
  note r2 = select_result [OF h3, where rt = cpython and doc = "one_node ab_entry" and ys = "[]"
      and obj = ab_entry and zs = "[]" and e = TypeError]
  from r2 [THEN conjunct2, THEN conjunct1] oa pa
  have x: "select cpython (one_node ab_entry) (SelStr ''node[entries=1]'') = Inl TypeError" by simp
  from p o v t s k q oa pa x n c show ?thesis by blast
qed

section \<open>The claims about the parser\<close>

text \<open>
  C8: the value of a body line is stored after the line breaks are escaped and one
  pair of surrounding quotes is removed; when the result begins with \<^verbatim>\<open>+\<close> it is stored
  wrapped as \<^verbatim>\<open>="..."\<close>, otherwise as it is.  The value \<^verbatim>\<open>+10%\<close> is stored as
  \<^verbatim>\<open>="+10%"\<close> and \<^verbatim>\<open>10%\<close> unchanged, also in a file parsed as a whole.
\<close>

theorem formula_guard:
  "stored_value v =
     (let e = escape_nl v;
          q = (if 2 \<le> length e \<and> hd e = dq \<and> last e = dq then butlast (tl e) else e)
      in if take 1 q = ''+'' then ''='' @ [dq] @ q @ [dq] else q) \<and>
   (body_line key v doc (Some a) = Inr (doc', rsc') \<and> a < length (heap doc) \<longrightarrow>
      (\<exists>d. entries (heap doc' ! a) = VDict d \<and> map_of d key = Some (VStr (stored_value v)))) \<and>
   stored_value ''+10%'' = ''='' @ [dq] @ ''+10%'' @ [dq] \<and>
   stored_value ''10%'' = ''10%'' \<and>
   TSCN cpython guard_text = Inr (one_node guard_node)"
proof -
  have a: "stored_value v =
     (let e = escape_nl v;
          q = (if 2 \<le> length e \<and> hd e = dq \<and> last e = dq then butlast (tl e) else e)
      in if take 1 q = ''+'' then ''='' @ [dq] @ q @ [dq] else q)"
    by (rule stored_value_eq)
  have b: "body_line key v doc (Some a) = Inr (doc', rsc') \<and> a < length (heap doc) \<longrightarrow>
      (\<exists>d. entries (heap doc' ! a) = VDict d \<and> map_of d key = Some (VStr (stored_value v)))"
    using body_line_stores [of key v doc a doc' rsc'] by blast
  have c: "stored_value ''+10%'' = ''='' @ [dq] @ ''+10%'' @ [dq]" by code_simp
  have d: "stored_value ''10%'' = ''10%''" by code_simp
  have e: "TSCN cpython guard_text = Inr (one_node guard_node)" by code_simp
  from a b c d e show ?thesis by blast
qed

theorem formula_guard_witness:
  "(body_line ''Bonus'' ''+10%'' three_doc (Some 1) = Inr (bonus_doc, Some 1) \<and>
      1 < length (heap three_doc)) \<and>
   (\<exists>d. entries (heap bonus_doc ! 1) = VDict d \<and>
        map_of d ''Bonus'' = Some (VStr (''='' @ [dq] @ ''+10%'' @ [dq])))"
proof -
  have h: "body_line ''Bonus'' ''+10%'' three_doc (Some 1) = Inr (bonus_doc, Some 1) \<and>
      1 < length (heap three_doc)" by code_simp
  note t = formula_guard [of "''+10%''" "''Bonus''" three_doc 1 bonus_doc "Some 1"]
  from t [THEN conjunct2, THEN conjunct1] h
  have "\<exists>d. entries (heap bonus_doc ! 1) = VDict d \<and>
        map_of d ''Bonus'' = Some (VStr (stored_value ''+10%''))" by blast
  moreover from t have "stored_value ''+10%'' = ''='' @ [dq] @ ''+10%'' @ [dq]" by blast
  ultimately show ?thesis using h by simp
qed

text \<open>
  C2 (as the claim states it, refuted): the text \<^verbatim>\<open>[foo]\<close> is one header line of the
  kind \<^verbatim>\<open>foo\<close>, which is not a recognised kind, and parsing it raises
  \<^verbatim>\<open>AttributeError\<close>: the document has no attribute \<^verbatim>\<open>foo\<close> to append to.
\<close>

theorem unknown_kind_counterexample:
  "findall lines_re ''[foo]'' = [foo_line] \<and> group foo_line 1 = ''foo'' \<and>
   TSCN cpython ''[foo]'' = Inl AttributeError"
  by code_simp

text \<open>
  C2 (amended): a text with a header line whose kind is outside the recognised set
  is not parsed: parsing raises an error, \<^verbatim>\<open>AttributeError\<close> when the document has no
  attribute of that name and \<^verbatim>\<open>TypeError\<close> when it has one that is not a list.  The one
  exception is the kind \<^verbatim>\<open>resources\<close>, the name of the flat list itself: its Resource
  is appended to the flat list twice.
\<close>

theorem unknown_kind_fails:
  "(line \<in> set (findall lines_re data) \<and> group line 1 \<noteq> [] \<and> group line 1 \<notin> set types \<and>
      group line 1 \<noteq> ''gd_scene'' \<and> group line 1 \<noteq> ''resources'' \<longrightarrow>
      (\<exists>e. TSCN rt data = Inl e)) \<and>
   (rtype \<notin> set types \<and> rtype \<noteq> ''gd_scene'' \<and> rtype \<noteq> ''resources'' \<and>
      TSCNResource rt rtype (header_attrs rest') = Inr r \<longrightarrow>
      header_line rt rtype rest' doc =
        Inl (if (rtype = ''scene'' \<and> scene doc \<noteq> None) \<or> doc_class rt rtype then TypeError
             else AttributeError)) \<and>
   (header_line rt ''resources'' rest' doc = Inr (doc', rsc) \<longrightarrow>
      resources doc' = resources doc @ [length (heap doc), length (heap doc)])"
proof -
  have a: "line \<in> set (findall lines_re data) \<and> group line 1 \<noteq> [] \<and> group line 1 \<notin> set types \<and>
      group line 1 \<noteq> ''gd_scene'' \<and> group line 1 \<noteq> ''resources'' \<longrightarrow>
      (\<exists>e. TSCN rt data = Inl e)"
    using parse_lines_unknown [of line "findall lines_re data" rt "(init, None)"]
    by (auto simp: TSCN_def parse_file_def)
  have b: "rtype \<notin> set types \<and> rtype \<noteq> ''gd_scene'' \<and> rtype \<noteq> ''resources'' \<and>
      TSCNResource rt rtype (header_attrs rest') = Inr r \<longrightarrow>
      header_line rt rtype rest' doc =
        Inl (if (rtype = ''scene'' \<and> scene doc \<noteq> None) \<or> doc_class rt rtype then TypeError
             else AttributeError)"
    using header_line_unknown [of rtype rt rest' doc] by auto
  have c: "header_line rt ''resources'' rest' doc = Inr (doc', rsc) \<longrightarrow>
      resources doc' = resources doc @ [length (heap doc), length (heap doc)]"
    using header_line_resources [of rt "''resources''" rest' doc doc' rsc] by simp
  from a b c show ?thesis by blast
qed

theorem unknown_kind_fails_witness:
  "(foo_line \<in> set (findall lines_re ''[foo]'') \<and> group foo_line 1 \<noteq> [] \<and>
      group foo_line 1 \<notin> set types \<and> group foo_line 1 \<noteq> ''gd_scene'' \<and>
      group foo_line 1 \<noteq> ''resources'') \<and>
   (\<exists>e. TSCN cpython ''[foo]'' = Inl e) \<and>
   (''foo'' \<notin> set types \<and> ''foo'' \<noteq> ''gd_scene'' \<and> ''foo'' \<noteq> ''resources'' \<and>
      TSCNResource cpython ''foo'' (header_attrs []) = Inr (empty_node ''foo'')) \<and>
   header_line cpython ''foo'' [] init = Inl AttributeError \<and>
   header_line cpython ''resources'' [] init = Inr (resources_doc, Some 0) \<and>
   resources resources_doc = [0, 0]"
proof -
  have h1: "foo_line \<in> set (findall lines_re ''[foo]'') \<and> group foo_line 1 \<noteq> [] \<and>
      group foo_line 1 \<notin> set types \<and> group foo_line 1 \<noteq> ''gd_scene'' \<and>
      group foo_line 1 \<noteq> ''resources''" by code_simp
  have h2: "''foo'' \<notin> set types \<and> ''foo'' \<noteq> ''gd_scene'' \<and> ''foo'' \<noteq> ''resources'' \<and>
      TSCNResource cpython ''foo'' (header_attrs []) = Inr (empty_node ''foo'')" by code_simp
  have h3: "header_line cpython ''resources'' [] init = Inr (resources_doc, Some 0)" by code_simp
  have e: "\<not> ((''foo'' = ''scene'' \<and> scene init \<noteq> None) \<or> doc_class cpython ''foo'')" by code_simp
  have i: "resources init = [] \<and> length (heap init) = 0" by (simp add: init_def)
  note t = unknown_kind_fails [of foo_line "''[foo]''" cpython "''foo''" "[]" "empty_node ''foo''"
      init resources_doc "Some 0"]
  from t [THEN conjunct1] h1 have c1: "\<exists>e. TSCN cpython ''[foo]'' = Inl e" by blast
  from t [THEN conjunct2, THEN conjunct1] h2 e
  have c2: "header_line cpython ''foo'' [] init = Inl AttributeError" by simp
  from t [THEN conjunct2, THEN conjunct2] h3 i
  have c3: "resources resources_doc = [0, 0]" by simp
  from h1 c1 h2 c2 h3 c3 show ?thesis by blast
qed

text \<open>
  C5 (as the claim states it, refuted): the text \<^verbatim>\<open>a = 1\<close> has no header line; its body
  line is not skipped, parsing raises \<^verbatim>\<open>AttributeError\<close> because no Resource is open.
\<close>

theorem body_before_header_counterexample:
  "filter (\<lambda>line. group line 1 \<noteq> []) (findall lines_re ''a = 1'') = [] \<and>
   TSCN cpython ''a = 1'' = Inl AttributeError"
  by code_simp

text \<open>
  C5 (amended): a text in which no line is recognised (text that matches none of the
  two shapes is skipped) yields the empty document; a text whose first recognised line
  is a body line, as in every text with body lines and no header line, raises
  \<^verbatim>\<open>AttributeError\<close>; a header line with no inline attributes yields a Resource with
  no attributes and no entries.
\<close>

theorem no_header_lines:
  "(findall lines_re data = [] \<longrightarrow>
      TSCN rt data = Inr \<lparr>heap = [], resources = [], node = [], ext_resource = [],
                           sub_resource = [], connection = [], scene = None\<rparr>) \<and>
   (findall lines_re data = line # others \<and> group line 1 = [] \<longrightarrow>
      TSCN rt data = Inl AttributeError) \<and>
   header_attrs [] = [] \<and>
   (header_attrs rest' = [] \<longrightarrow>
      TSCNResource rt rtype (header_attrs rest') =
        Inr \<lparr>resource_type = rtype, entries = VDict [], attrs = []\<rparr>)"
proof -
  have a: "findall lines_re data = [] \<longrightarrow>
      TSCN rt data = Inr \<lparr>heap = [], resources = [], node = [], ext_resource = [],
                           sub_resource = [], connection = [], scene = None\<rparr>"
    by (simp add: TSCN_def parse_file_def init_def)
  have b: "findall lines_re data = line # others \<and> group line 1 = [] \<longrightarrow>
      TSCN rt data = Inl AttributeError"
    using parse_lines_body_first [of line rt others init]
    by (auto simp: TSCN_def parse_file_def)
  have c: "header_attrs rest' = [] \<longrightarrow>
      TSCNResource rt rtype (header_attrs rest') =
        Inr \<lparr>resource_type = rtype, entries = VDict [], attrs = []\<rparr>"
    by (simp add: TSCNResource_no_attrs)
  from a b c header_attrs_empty show ?thesis by blast
qed

theorem no_header_lines_witness:
  "findall lines_re ''hello world'' = [] \<and>
   TSCN cpython ''hello world'' =
     Inr \<lparr>heap = [], resources = [], node = [], ext_resource = [], sub_resource = [],
          connection = [], scene = None\<rparr> \<and>
   (findall lines_re ''a = 1'' = body_only # [] \<and> group body_only 1 = []) \<and>
   TSCN cpython ''a = 1'' = Inl AttributeError \<and>
   header_attrs [] = [] \<and>
   TSCNResource cpython ''node'' (header_attrs []) = Inr (empty_node ''node'')"
proof -
  have h1: "findall lines_re ''hello world'' = []" by code_simp
  have h2: "findall lines_re ''a = 1'' = body_only # [] \<and> group body_only 1 = []" by code_simp
  note t1 = no_header_lines [of "''hello world''" cpython body_only "[]" "[]" "''node''"]
  note t2 = no_header_lines [of "''a = 1''" cpython body_only "[]" "[]" "''node''"]
  from t1 [THEN conjunct1] h1 have c1: "TSCN cpython ''hello world'' =
     Inr \<lparr>heap = [], resources = [], node = [], ext_resource = [], sub_resource = [],
          connection = [], scene = None\<rparr>" by blast
  from t2 [THEN conjunct2, THEN conjunct1] h2 have c2: "TSCN cpython ''a = 1'' = Inl AttributeError"
    by blast
  from t1 have h3: "header_attrs [] = []" by blast
  from t1 [THEN conjunct2, THEN conjunct2, THEN conjunct2] h3
  have c3: "TSCNResource cpython ''node'' (header_attrs []) = Inr (empty_node ''node'')"
    by (simp add: empty_node_def)
  from h1 c1 h2 c2 h3 c3 show ?thesis by blast
qed

text \<open>
  C3 (as the claim states it, refuted): in the header \<^verbatim>\<open>[node a=+1]\<close> the attribute
  \<^verbatim>\<open>a\<close> is set to \<^verbatim>\<open>+1\<close>, where the rules for body values give \<^verbatim>\<open>="+1"\<close>.
\<close>

theorem header_plus_counterexample:
  "TSCN cpython ''[node a=+1]'' = Inr (one_node plus_node) \<and>
   getattr cpython plus_node ''a'' = Some (VStr ''+1'') \<and>
   stored_value ''+1'' = ''='' @ [dq] @ ''+1'' @ [dq]"
  by code_simp

text \<open>
  C3 (amended): a header attribute is set to the matched value of the last pair with
  its key, with every double quote removed and nothing else done to it: line breaks
  are not escaped and a leading \<^verbatim>\<open>+\<close> is not wrapped.
\<close>

theorem header_value_quotes_removed:
  assumes "header_line rt rtype rest' doc = Inr (doc', rsc)"
    and "find (\<lambda>p. group p 1 = k) (rev (findall pairs_re rest')) = Some p"
  shows "rsc = Some (length (heap doc)) \<and>
     getattr rt (heap doc' ! length (heap doc)) k = Some (VStr (filter (\<lambda>c. c \<noteq> dq) (group p 2)))"
  using assms by (rule header_line_attr)

theorem header_value_quotes_removed_witness:
  "header_line cpython ''node'' '' a=+1'' init = Inr (one_node plus_node, Some 0) \<and>
   find (\<lambda>p. group p 1 = ''a'') (rev (findall pairs_re '' a=+1'')) = Some plus_pair \<and>
   getattr cpython (heap (one_node plus_node) ! 0) ''a'' = Some (VStr ''+1'')"
proof -
  have h1: "header_line cpython ''node'' '' a=+1'' init = Inr (one_node plus_node, Some 0)"
    by code_simp
  have h2: "find (\<lambda>p. group p 1 = ''a'') (rev (findall pairs_re '' a=+1'')) = Some plus_pair"
    by code_simp
  have g: "filter (\<lambda>c. c \<noteq> dq) (group plus_pair 2) = ''+1''" by code_simp
  have li: "length (heap init) = 0" by (simp add: init_def)
  from header_value_quotes_removed [OF h1 h2, THEN conjunct2] g li
  have "getattr cpython (heap (one_node plus_node) ! 0) ''a'' = Some (VStr ''+1'')"
    by simp
  with h1 h2 show ?thesis by blast
qed

text \<open>
  C10 (as the claim states it, refuted): the parsed entry \<^verbatim>\<open>a/b = [1, 2]\<close> has the key
  \<^verbatim>\<open>a/b\<close>; the path \<^verbatim>\<open>a/b/0\<close>, the key followed by \<^verbatim>\<open>/0\<close>, is split into three
  segments, its first segment \<^verbatim>\<open>a\<close> names nothing, and \<^verbatim>\<open>query\<close> returns the default
  instead of the character \<^verbatim>\<open>[\<close>.
\<close>

theorem slash_key_counterexample:
  "TSCN cpython slash_text = Inr (one_node slash_node) \<and>
   entries slash_node = VDict [(''a/b'', VStr ''[1, 2]'')] \<and>
   query cpython slash_node (PStr ''a/b/0'') (VStr ''X'') = Inr (VStr ''X'')"
  by code_simp

text \<open>
  C10 (amended): every value in the entries of a parsed Resource is a string.  For an
  entry key that is not numeric, has no slash and is not the name of an attribute of
  the Resource, the path of the key, a slash and the decimal numeral of \<open>n\<close> (with
  any leading zeros) gives the character at index \<open>n\<close> of the stored text, and raises
  \<^verbatim>\<open>IndexError\<close> when \<open>n\<close> is beyond its end; a numeral with more digits than the
  interpreter's limit raises \<^verbatim>\<open>ValueError\<close>.  The entry \<^verbatim>\<open>k = [1, 2]\<close> queried with
  \<^verbatim>\<open>k/0\<close> gives the character \<^verbatim>\<open>[\<close>.
\<close>

theorem entry_index_is_character:
  assumes "TSCN rt data = Inr doc" "self \<in> set (heap doc)" "entries self = VDict dd"
    "map_of dd k = Some w" "\<not> isnumeric k" "CHR ''/'' \<notin> set k" "getattr rt self k = None"
    "i = replicate z (CHR ''0'') @ dec n"
  shows "\<exists>v. w = VStr v \<and>
     (\<not> too_long rt i \<longrightarrow>
        query rt self (PStr (k @ ''/'' @ i)) d =
          (if n < length v then Inr (VStr [v ! n]) else Inl IndexError)) \<and>
     (too_long rt i \<longrightarrow> query rt self (PStr (k @ ''/'' @ i)) d = Inl ValueError)"
proof -
  from TSCN_text [OF assms(1,2)] assms(3,4) obtain v where v: "w = VStr v"
    by (auto simp: text_entries_def)
  from numeral_text [of z n] assms(8) have i: "isnumeric i" "int_of_digits i = n" by simp_all
  from query_entry_index [OF assms(3) assms(4) [unfolded v] assms(5,6,7) i(1), of d] i(2) v
  show ?thesis by simp
qed

theorem entry_index_is_character_witness:
  "(TSCN cpython array_text = Inr (one_node array_node) \<and>
    array_node \<in> set (heap (one_node array_node)) \<and>
    entries array_node = VDict [(''k'', VStr ''[1, 2]'')] \<and>
    map_of [(''k'', VStr ''[1, 2]'')] ''k'' = Some (VStr ''[1, 2]'') \<and>
    \<not> isnumeric ''k'' \<and> CHR ''/'' \<notin> set ''k'' \<and> getattr cpython array_node ''k'' = None) \<and>
   (replicate 0 (CHR ''0'') @ dec 0 = ''0'' \<and> \<not> too_long cpython ''0'') \<and>
   query cpython array_node (PStr ''k/0'') VNone = Inr (VStr ''['') \<and>
   (replicate 1 (CHR ''0'') @ dec 4 = ''04'' \<and> \<not> too_long cpython ''04'') \<and>
   query cpython array_node (PStr ''k/04'') VNone = Inr (VStr ''2'') \<and>
   (replicate 0 (CHR ''0'') @ dec 12 = ''12'' \<and> \<not> too_long cpython ''12'') \<and>
   query cpython array_node (PStr ''k/12'') VNone = Inl IndexError \<and>
   too_long cpython (replicate 4300 (CHR ''0'') @ dec 0) \<and>
   query cpython array_node (PStr (''k/'' @ replicate 4300 (CHR ''0'') @ dec 0)) VNone = Inl ValueError"
proof -
  have h: "TSCN cpython array_text = Inr (one_node array_node) \<and>
    array_node \<in> set (heap (one_node array_node)) \<and>
    entries array_node = VDict [(''k'', VStr ''[1, 2]'')] \<and>
    map_of [(''k'', VStr ''[1, 2]'')] ''k'' = Some (VStr ''[1, 2]'') \<and>
    \<not> isnumeric ''k'' \<and> CHR ''/'' \<notin> set ''k'' \<and> getattr cpython array_node ''k'' = None"
    by code_simp
  have e0: "replicate 0 (CHR ''0'') @ dec 0 = ''0''" by code_simp
  have e4: "replicate 1 (CHR ''0'') @ dec 4 = ''04''" by code_simp
  have e12: "replicate 0 (CHR ''0'') @ dec 12 = ''12''" by code_simp
  have l: "\<not> too_long cpython ''0''" "\<not> too_long cpython ''04''" "\<not> too_long cpython ''12''"
    by code_simp+
  from h have p: "TSCN cpython array_text = Inr (one_node array_node)"
    "array_node \<in> set (heap (one_node array_node))"
    "entries array_node = VDict [(''k'', VStr ''[1, 2]'')]"
    "map_of [(''k'', VStr ''[1, 2]'')] ''k'' = Some (VStr ''[1, 2]'')"
    "\<not> isnumeric ''k''" "CHR ''/'' \<notin> set ''k''" "getattr cpython array_node ''k'' = None"
    by blast+
  note e = entry_index_is_character [OF p refl, where d = VNone]
  from e [of 0 0, unfolded e0] l
  have c0: "query cpython array_node (PStr ''k/0'') VNone = Inr (VStr ''['')" by simp
  from e [of 1 4, unfolded e4] l
  have c4: "query cpython array_node (PStr ''k/04'') VNone = Inr (VStr ''2'')" by simp
  from e [of 0 12, unfolded e12] l
  have c12: "query cpython array_node (PStr ''k/12'') VNone = Inl IndexError" by simp
  have g: "too_long cpython (replicate 4300 (CHR ''0'') @ dec 0)" by (rule too_long_zeros)
  from e [of 4300 0] g
  have cz: "query cpython array_node (PStr (''k/'' @ replicate 4300 (CHR ''0'') @ dec 0)) VNone = Inl ValueError"
    by auto
  from h e0 e4 e12 l c0 c4 c12 g cz show ?thesis by blast
qed

section \<open>The claims about query\<close>

text \<open>
  C9 (as the claim states it, refuted): the parsed Resource of \<^verbatim>\<open>[node 7=A]\<close> with the
  body line \<^verbatim>\<open>7 = E\<close> has the attribute \<^verbatim>\<open>7\<close> and the entry \<^verbatim>\<open>7\<close>.  The path \<^verbatim>\<open>7\<close> is
  converted to the integer 7 before the lookup, \<^verbatim>\<open>hasattr\<close> raises \<^verbatim>\<open>TypeError\<close>, and
  neither the attribute nor the entry is returned.
\<close>

theorem numeric_name_counterexample:
  "TSCN cpython seven_text = Inr (one_node seven_node) \<and>
   getattr cpython seven_node ''7'' = Some (VStr ''A'') \<and>
   entries seven_node = VDict [(''7'', VStr ''E'')] \<and>
   query cpython seven_node (PStr ''7'') (VStr ''X'') = Inl TypeError"
  by code_simp

text \<open>
  C9 (amended): \<^verbatim>\<open>query\<close> returns the default for the empty list and for a path that
  is neither a string nor a list; a string path is the list of the segments between
  its slashes.  All segments are converted before the lookup: a numeric segment with
  more digits than the interpreter's limit raises \<^verbatim>\<open>ValueError\<close>, and otherwise a
  numeric first segment raises \<^verbatim>\<open>TypeError\<close>, whatever attributes and entries there
  are.  A first segment that is not numeric is looked up as an attribute first: when
  the attribute exists the walk starts from its value, whatever \<^verbatim>\<open>entries\<close> holds under
  that name; \<^verbatim>\<open>entries\<close> decides only when there is no such attribute.  The empty
  string is the path of one empty segment and gives the default when neither an
  attribute nor an entry has the empty name.  A numeral converts to its number.
\<close>

theorem query_lookup_order:
  "query rt self (PList []) d = Inr d \<and>
   query rt self POther d = Inr d \<and>
   (query rt self (PStr s) d = query rt self (PList (split_slash s)) d \<and>
    split_slash s \<noteq> [] \<and> join_slash (split_slash s) = s \<and>
    (\<forall>seg \<in> set (split_slash s). CHR ''/'' \<notin> set seg)) \<and>
   ((\<exists>y \<in> set (x # xs). too_long rt y) \<longrightarrow> query rt self (PList (x # xs)) d = Inl ValueError) \<and>
   ((\<forall>y \<in> set (x # xs). \<not> too_long rt y) \<and> isnumeric x \<longrightarrow>
      query rt self (PList (x # xs)) d = Inl TypeError) \<and>
   ((\<forall>y \<in> set xs. \<not> too_long rt y) \<and> \<not> isnumeric x \<and> getattr rt self x = Some v \<longrightarrow>
      query rt self (PList (x # xs)) d = reduce_getitem v (map segment xs)) \<and>
   ((\<forall>y \<in> set xs. \<not> too_long rt y) \<and> \<not> isnumeric x \<and> getattr rt self x = None \<and>
    entries self = VDict dd \<longrightarrow>
      query rt self (PList (x # xs)) d =
        (case map_of dd x of Some w \<Rightarrow> reduce_getitem w (map segment xs) | None \<Rightarrow> Inr d)) \<and>
   ((\<forall>y \<in> set xs. \<not> too_long rt y) \<and> \<not> isnumeric x \<and> getattr rt self x = None \<and>
    entries self = VStr e \<longrightarrow>
      query rt self (PList (x # xs)) d = (if substring x e then Inl TypeError else Inr d)) \<and>
   (getattr rt self [] = None \<and> entries self = VDict dd \<and> map_of dd [] = None \<longrightarrow>
      query rt self (PStr []) d = Inr d) \<and>
   (isnumeric (replicate z (CHR ''0'') @ dec n) \<and>
    segment (replicate z (CHR ''0'') @ dec n) = Idx n)"
proof -
  have a: "query rt self (PList []) d = Inr d" "query rt self POther d = Inr d"
    by (simp_all add: query_def)
  have b: "query rt self (PStr s) d = query rt self (PList (split_slash s)) d \<and>
    split_slash s \<noteq> [] \<and> join_slash (split_slash s) = s \<and>
    (\<forall>seg \<in> set (split_slash s). CHR ''/'' \<notin> set seg)"
    using query_PStr split_slash_nonempty join_split split_no_slash by simp
  have c: "(\<exists>y \<in> set (x # xs). too_long rt y) \<longrightarrow> query rt self (PList (x # xs)) d = Inl ValueError"
    using query_too_long [of x xs rt self d] by blast
  have e: "(\<forall>y \<in> set (x # xs). \<not> too_long rt y) \<and> isnumeric x \<longrightarrow>
      query rt self (PList (x # xs)) d = Inl TypeError"
    using query_numeric_first [of x xs rt self d] by blast
  have f: "(\<forall>y \<in> set xs. \<not> too_long rt y) \<and> \<not> isnumeric x \<and> getattr rt self x = Some v \<longrightarrow>
      query rt self (PList (x # xs)) d = reduce_getitem v (map segment xs)"
    using query_attr [of x rt xs "map segment xs" self v d] conv_all_ok [of xs rt] by blast
  have g: "(\<forall>y \<in> set xs. \<not> too_long rt y) \<and> \<not> isnumeric x \<and> getattr rt self x = None \<and>
    entries self = VDict dd \<longrightarrow>
      query rt self (PList (x # xs)) d =
        (case map_of dd x of Some w \<Rightarrow> reduce_getitem w (map segment xs) | None \<Rightarrow> Inr d)"
    using query_entry [of x rt xs "map segment xs" self dd d] conv_all_ok [of xs rt] by blast
  have h: "(\<forall>y \<in> set xs. \<not> too_long rt y) \<and> \<not> isnumeric x \<and> getattr rt self x = None \<and>
    entries self = VStr e \<longrightarrow>
      query rt self (PList (x # xs)) d = (if substring x e then Inl TypeError else Inr d)"
    using query_entries_text [of x rt xs "map segment xs" self e d] conv_all_ok [of xs rt] by blast
  have i: "getattr rt self [] = None \<and> entries self = VDict dd \<and> map_of dd [] = None \<longrightarrow>
      query rt self (PStr []) d = Inr d"
    using query_entry [of "[]" rt "[]" "[]" self dd d]
    by (simp add: query_PStr isnumeric_def)
  have j: "isnumeric (replicate z (CHR ''0'') @ dec n) \<and>
    segment (replicate z (CHR ''0'') @ dec n) = Idx n"
    using numeral_text [of z n] by (simp add: segment_def)
  from a b c e f g h i j show ?thesis by blast
qed

theorem query_lookup_order_witness:
  "(\<not> too_long cpython ''0'' \<and> \<not> isnumeric ''name'' \<and>
      getattr cpython health ''name'' = Some (VStr ''Health'')) \<and>
   query cpython health (PList [''name'', ''0'']) VNone = Inr (VStr ''H'') \<and>
   (\<not> isnumeric ''hp'' \<and> getattr cpython health ''hp'' = None \<and>
      entries health = VDict [(''name'', VStr ''Entry''), (''hp'', VStr ''50'')]) \<and>
   query cpython health (PList [''hp'', ''0'']) VNone = Inr (VStr ''5'') \<and>
   (\<not> too_long cpython ''7'' \<and> isnumeric ''7'') \<and>
   query cpython seven_node (PList [''7'']) VNone = Inl TypeError \<and>
   (getattr cpython health [] = None \<and> map_of [(''name'', VStr ''Entry''), (''hp'', VStr ''50'')] [] = None) \<and>
   query cpython health (PStr []) (VStr ''X'') = Inr (VStr ''X'') \<and>
   too_long cpython (replicate 4300 (CHR ''0'') @ dec 5) \<and>
   query cpython health (PList [''name'', replicate 4300 (CHR ''0'') @ dec 5]) VNone = Inl ValueError"
proof -
  let ?dd = "[(''name'', VStr ''Entry''), (''hp'', VStr ''50'')]"
  have z: "\<not> too_long cpython ''0''" "\<not> too_long cpython ''7''" "isnumeric ''7''" by code_simp+
  have a: "\<not> isnumeric ''name'' \<and> getattr cpython health ''name'' = Some (VStr ''Health'')"
    by code_simp
  have b: "\<not> isnumeric ''hp'' \<and> getattr cpython health ''hp'' = None \<and> entries health = VDict ?dd"
    by code_simp
  have f: "getattr cpython health [] = None \<and> map_of ?dd [] = None" by code_simp
  have w: "reduce_getitem (VStr ''Health'') (map segment [''0'']) = Inr (VStr ''H'')"
    "reduce_getitem (VStr ''50'') (map segment [''0'']) = Inr (VStr ''5'')" by code_simp+
  note t1 = query_lookup_order [of cpython health VNone "[]" "''name''" "[''0'']" "VStr ''Health''" ?dd "[]" 0 0]
  from t1 [THEN conjunct2, THEN conjunct2, THEN conjunct2, THEN conjunct2, THEN conjunct2, THEN conjunct1]
    z a w
  have c1: "query cpython health (PList [''name'', ''0'']) VNone = Inr (VStr ''H'')" by simp
  note t2 = query_lookup_order [of cpython health VNone "[]" "''hp''" "[''0'']" VNone ?dd "[]" 0 0]
  from t2 [THEN conjunct2, THEN conjunct2, THEN conjunct2, THEN conjunct2, THEN conjunct2, THEN conjunct2,
      THEN conjunct1] z b w
  have c2: "query cpython health (PList [''hp'', ''0'']) VNone = Inr (VStr ''5'')" by simp
  note t3 = query_lookup_order [of cpython seven_node VNone "[]" "''7''" "[]" VNone ?dd "[]" 0 0]
  from t3 [THEN conjunct2, THEN conjunct2, THEN conjunct2, THEN conjunct2, THEN conjunct1] z
  have c3: "query cpython seven_node (PList [''7'']) VNone = Inl TypeError" by simp
  note t4 = query_lookup_order [of cpython health "VStr ''X''" "[]" "[]" "[]" VNone ?dd "[]" 0 0]
  from t4 b f have c4: "query cpython health (PStr []) (VStr ''X'') = Inr (VStr ''X'')" by blast
  have g: "too_long cpython (replicate 4300 (CHR ''0'') @ dec 5)" by (rule too_long_zeros)
  note t5 = query_lookup_order [of cpython health VNone "[]" "''name''" "[replicate 4300 (CHR ''0'') @ dec 5]"
      VNone ?dd "[]" 0 0]
  from t5 [THEN conjunct2, THEN conjunct2, THEN conjunct2, THEN conjunct1] g
  have c5: "query cpython health (PList [''name'', replicate 4300 (CHR ''0'') @ dec 5]) VNone = Inl ValueError"
    by simp
  from z a b f c1 c2 c3 c4 g c5 show ?thesis by blast
qed

text \<open>
  C1 (as the claim states it, refuted): the entry \<^verbatim>\<open>k\<close> holds the text \<^verbatim>\<open>ab\<close>; the
  first segment of \<^verbatim>\<open>k/5\<close> resolves as an entry key, index 5 is out of range, and
  \<^verbatim>\<open>query\<close> raises \<^verbatim>\<open>IndexError\<close> instead of returning the default \<^verbatim>\<open>X\<close>.
\<close>

theorem query_out_of_range_counterexample:
  "query cpython ab_entry (PStr ''k/5'') (VStr ''X'') = Inl IndexError \<and>
   query cpython ab_entry (PStr ''k/5'') (VStr ''X'') \<noteq> Inr (VStr ''X'')"
  by code_simp

text \<open>
  C1 (amended): \<^verbatim>\<open>query\<close> has no exception handler.  For a path, list or string, whose
  first segment is not numeric and resolves, as an attribute or else as a key of
  \<^verbatim>\<open>entries\<close>, and whose other segments convert: when the steps before a step succeed
  and that step fails, \<^verbatim>\<open>query\<close> raises the error of the step, \<^verbatim>\<open>IndexError\<close> for an
  index beyond the end of a string, \<^verbatim>\<open>KeyError\<close> for a key that a dictionary does not
  have, \<^verbatim>\<open>TypeError\<close> for a value that cannot be indexed so, and no other error; the
  result is the walk from the resolved value and does not depend on the default.  The
  default is returned when the first segment resolves as neither (it is no attribute,
  and no key of the dictionary \<^verbatim>\<open>entries\<close> or no part of the text \<^verbatim>\<open>entries\<close>), for the
  empty list and for a path that is neither a string nor a list.  A numeric segment
  with more digits than the interpreter's limit makes \<^verbatim>\<open>query\<close> raise \<^verbatim>\<open>ValueError\<close>
  before any lookup.
\<close>

theorem query_failing_step_raises:
  "((path = PList (x # xs) \<or> (path = PStr s \<and> split_slash s = x # xs)) \<and> \<not> isnumeric x \<and>
    (getattr rt self x = Some v \<or>
       (getattr rt self x = None \<and> entries self = VDict dd \<and> map_of dd x = Some v)) \<longrightarrow>
      (conv_all rt xs = Inr (qs @ p # ps) \<and> reduce_getitem v qs = Inr u \<longrightarrow>
         (u = VStr t \<and> p = Idx i \<and> length t \<le> i \<longrightarrow> query rt self path d = Inl IndexError) \<and>
         (u = VDict dk \<and> ((p = Key k \<and> map_of dk k = None) \<or> p = Idx i) \<longrightarrow>
            query rt self path d = Inl KeyError) \<and>
         ((u = VStr t \<and> p = Key k) \<or> u = VNone \<or> u = VObject \<longrightarrow>
            query rt self path d = Inl TypeError) \<and>
         (getitem u p = Inl e \<longrightarrow>
            query rt self path d = Inl e \<and> (e = IndexError \<or> e = KeyError \<or> e = TypeError))) \<and>
      (\<forall>ps'. conv_all rt xs = Inr ps' \<longrightarrow> query rt self path d = reduce_getitem v ps')) \<and>
   ((path = PList (x # xs) \<or> (path = PStr s \<and> split_slash s = x # xs)) \<and> \<not> isnumeric x \<and>
    (\<forall>y \<in> set xs. \<not> too_long rt y) \<and>
    getattr rt self x = None \<and> entries self = VDict dd \<and> map_of dd x = None \<longrightarrow>
      query rt self path d = Inr d) \<and>
   query rt self (PList []) d = Inr d \<and>
   query rt self POther d = Inr d \<and>
   ((path = PList (x # xs) \<or> (path = PStr s \<and> split_slash s = x # xs)) \<and>
    (\<exists>y \<in> set (x # xs). too_long rt y) \<longrightarrow>
      query rt self path d = Inl ValueError) \<and>
   ((path = PList (x # xs) \<or> (path = PStr s \<and> split_slash s = x # xs)) \<and> \<not> isnumeric x \<and>
    (\<forall>y \<in> set xs. \<not> too_long rt y) \<and>
    getattr rt self x = None \<and> entries self = VStr t' \<and> \<not> substring x t' \<longrightarrow>
      query rt self path d = Inr d)"
proof -
  have dflt: "query rt self (PList []) d = Inr d" "query rt self POther d = Inr d"
    by (simp_all add: query_def)
  have neither: "(path = PList (x # xs) \<or> (path = PStr s \<and> split_slash s = x # xs)) \<and> \<not> isnumeric x \<and>
    (\<forall>y \<in> set xs. \<not> too_long rt y) \<and>
    getattr rt self x = None \<and> entries self = VDict dd \<and> map_of dd x = None \<longrightarrow>
      query rt self path d = Inr d"
    using query_unresolved [of path x xs s rt self dd d] by auto
  have resolved: "(path = PList (x # xs) \<or> (path = PStr s \<and> split_slash s = x # xs)) \<and> \<not> isnumeric x \<and>
    (getattr rt self x = Some v \<or>
       (getattr rt self x = None \<and> entries self = VDict dd \<and> map_of dd x = Some v)) \<longrightarrow>
      (conv_all rt xs = Inr (qs @ p # ps) \<and> reduce_getitem v qs = Inr u \<longrightarrow>
         (u = VStr t \<and> p = Idx i \<and> length t \<le> i \<longrightarrow> query rt self path d = Inl IndexError) \<and>
         (u = VDict dk \<and> ((p = Key k \<and> map_of dk k = None) \<or> p = Idx i) \<longrightarrow>
            query rt self path d = Inl KeyError) \<and>
         ((u = VStr t \<and> p = Key k) \<or> u = VNone \<or> u = VObject \<longrightarrow>
            query rt self path d = Inl TypeError) \<and>
         (getitem u p = Inl e \<longrightarrow>
            query rt self path d = Inl e \<and> (e = IndexError \<or> e = KeyError \<or> e = TypeError))) \<and>
      (\<forall>ps'. conv_all rt xs = Inr ps' \<longrightarrow> query rt self path d = reduce_getitem v ps')"
  proof (intro impI)
    assume h: "(path = PList (x # xs) \<or> (path = PStr s \<and> split_slash s = x # xs)) \<and> \<not> isnumeric x \<and>
      (getattr rt self x = Some v \<or>
       (getattr rt self x = None \<and> entries self = VDict dd \<and> map_of dd x = Some v))"
    have walk: "\<And>ps'. conv_all rt xs = Inr ps' \<Longrightarrow> query rt self path d = reduce_getitem v ps'"
      using h query_resolved [of path x xs s rt self v dd _ d] by auto
    have step: "conv_all rt xs = Inr (qs @ p # ps) \<and> reduce_getitem v qs = Inr u \<longrightarrow>
         (u = VStr t \<and> p = Idx i \<and> length t \<le> i \<longrightarrow> query rt self path d = Inl IndexError) \<and>
         (u = VDict dk \<and> ((p = Key k \<and> map_of dk k = None) \<or> p = Idx i) \<longrightarrow>
            query rt self path d = Inl KeyError) \<and>
         ((u = VStr t \<and> p = Key k) \<or> u = VNone \<or> u = VObject \<longrightarrow>
            query rt self path d = Inl TypeError) \<and>
         (getitem u p = Inl e \<longrightarrow>
            query rt self path d = Inl e \<and> (e = IndexError \<or> e = KeyError \<or> e = TypeError))"
    proof
      assume c: "conv_all rt xs = Inr (qs @ p # ps) \<and> reduce_getitem v qs = Inr u"
      then have q: "query rt self path d =
          (case getitem u p of Inl e \<Rightarrow> Inl e | Inr w \<Rightarrow> reduce_getitem w ps)"
        using walk [of "qs @ p # ps"] reduce_failing_step [of v qs u p ps] by simp
      have a: "u = VStr t \<and> p = Idx i \<and> length t \<le> i \<longrightarrow> query rt self path d = Inl IndexError"
        using q by auto
      have b: "u = VDict dk \<and> ((p = Key k \<and> map_of dk k = None) \<or> p = Idx i) \<longrightarrow>
            query rt self path d = Inl KeyError"
        using q by auto
      have c': "(u = VStr t \<and> p = Key k) \<or> u = VNone \<or> u = VObject \<longrightarrow>
            query rt self path d = Inl TypeError"
        using q by auto
      have e: "getitem u p = Inl e \<longrightarrow>
            query rt self path d = Inl e \<and> (e = IndexError \<or> e = KeyError \<or> e = TypeError)"
        using q getitem_error_kinds [of u p e] by auto
      from a b c' e show "(u = VStr t \<and> p = Idx i \<and> length t \<le> i \<longrightarrow> query rt self path d = Inl IndexError) \<and>
         (u = VDict dk \<and> ((p = Key k \<and> map_of dk k = None) \<or> p = Idx i) \<longrightarrow>
            query rt self path d = Inl KeyError) \<and>
         ((u = VStr t \<and> p = Key k) \<or> u = VNone \<or> u = VObject \<longrightarrow>
            query rt self path d = Inl TypeError) \<and>
         (getitem u p = Inl e \<longrightarrow>
            query rt self path d = Inl e \<and> (e = IndexError \<or> e = KeyError \<or> e = TypeError))"
        by blast
    qed
    from step walk show "(conv_all rt xs = Inr (qs @ p # ps) \<and> reduce_getitem v qs = Inr u \<longrightarrow>
         (u = VStr t \<and> p = Idx i \<and> length t \<le> i \<longrightarrow> query rt self path d = Inl IndexError) \<and>
         (u = VDict dk \<and> ((p = Key k \<and> map_of dk k = None) \<or> p = Idx i) \<longrightarrow>
            query rt self path d = Inl KeyError) \<and>
         ((u = VStr t \<and> p = Key k) \<or> u = VNone \<or> u = VObject \<longrightarrow>
            query rt self path d = Inl TypeError) \<and>
         (getitem u p = Inl e \<longrightarrow>
            query rt self path d = Inl e \<and> (e = IndexError \<or> e = KeyError \<or> e = TypeError))) \<and>
      (\<forall>ps'. conv_all rt xs = Inr ps' \<longrightarrow> query rt self path d = reduce_getitem v ps')"
      by blast
  qed
  have long: "((path = PList (x # xs) \<or> (path = PStr s \<and> split_slash s = x # xs)) \<and>
    (\<exists>y \<in> set (x # xs). too_long rt y) \<longrightarrow>
      query rt self path d = Inl ValueError)"
  proof (intro impI)
    assume h: "(path = PList (x # xs) \<or> (path = PStr s \<and> split_slash s = x # xs)) \<and>
      (\<exists>y \<in> set (x # xs). too_long rt y)"
    then have "query rt self (PList (x # xs)) d = Inl ValueError"
      by (intro query_too_long) blast
    with h show "query rt self path d = Inl ValueError" by (auto simp: query_PStr)
  qed
  have strcase: "((path = PList (x # xs) \<or> (path = PStr s \<and> split_slash s = x # xs)) \<and> \<not> isnumeric x \<and>
    (\<forall>y \<in> set xs. \<not> too_long rt y) \<and>
    getattr rt self x = None \<and> entries self = VStr t' \<and> \<not> substring x t' \<longrightarrow>
      query rt self path d = Inr d)"
    using query_entries_text [of x rt xs "map segment xs" self t' d] conv_all_ok [of xs rt]
    by (auto simp: query_PStr)
  from resolved neither dflt long strcase show ?thesis by blast
qed

theorem query_failing_step_raises_witness:
  "(split_slash ''k/5'' = [''k'', ''5''] \<and> \<not> isnumeric ''k'' \<and>
      getattr cpython ab_entry ''k'' = None \<and> entries ab_entry = VDict [(''k'', VStr ''ab'')] \<and>
      map_of [(''k'', VStr ''ab'')] ''k'' = Some (VStr ''ab'') \<and>
      conv_all cpython [''5''] = Inr ([] @ Idx 5 # []) \<and>
      reduce_getitem (VStr ''ab'') [] = Inr (VStr ''ab'') \<and> length ''ab'' \<le> 5) \<and>
   query cpython ab_entry (PStr ''k/5'') (VStr ''X'') = Inl IndexError \<and>
   (split_slash ''entries/zz'' = [''entries'', ''zz''] \<and> \<not> isnumeric ''entries'' \<and>
      getattr cpython ab_entry ''entries'' = Some (VDict [(''k'', VStr ''ab'')]) \<and>
      conv_all cpython [''zz''] = Inr ([] @ Key ''zz'' # []) \<and>
      map_of [(''k'', VStr ''ab'')] ''zz'' = None) \<and>
   query cpython ab_entry (PStr ''entries/zz'') (VStr ''X'') = Inl KeyError \<and>
   (split_slash ''k/x'' = [''k'', ''x''] \<and> conv_all cpython [''x''] = Inr ([] @ Key ''x'' # [])) \<and>
   query cpython ab_entry (PStr ''k/x'') (VStr ''X'') = Inl TypeError \<and>
   (split_slash ''zz'' = [''zz''] \<and> \<not> isnumeric ''zz'' \<and> getattr cpython ab_entry ''zz'' = None) \<and>
   query cpython ab_entry (PStr ''zz'') (VStr ''X'') = Inr (VStr ''X'') \<and>
   too_long cpython (replicate 4300 (CHR ''0'') @ dec 5) \<and>
   query cpython ab_entry (PList [''k'', replicate 4300 (CHR ''0'') @ dec 5]) (VStr ''X'') = Inl ValueError"
proof -
  let ?dd = "[(''k'', VStr ''ab'')]"
  have h1: "split_slash ''k/5'' = [''k'', ''5''] \<and> \<not> isnumeric ''k'' \<and>
      getattr cpython ab_entry ''k'' = None \<and> entries ab_entry = VDict ?dd \<and>
      map_of ?dd ''k'' = Some (VStr ''ab'') \<and>
      conv_all cpython [''5''] = Inr ([] @ Idx 5 # []) \<and>
      reduce_getitem (VStr ''ab'') [] = Inr (VStr ''ab'') \<and> length ''ab'' \<le> 5" by code_simp
  have h2: "split_slash ''entries/zz'' = [''entries'', ''zz''] \<and> \<not> isnumeric ''entries'' \<and>
      getattr cpython ab_entry ''entries'' = Some (VDict ?dd) \<and>
      conv_all cpython [''zz''] = Inr ([] @ Key ''zz'' # []) \<and>
      map_of ?dd ''zz'' = None" by code_simp
  have h3: "split_slash ''k/x'' = [''k'', ''x''] \<and> conv_all cpython [''x''] = Inr ([] @ Key ''x'' # [])"
    by code_simp
  have h4: "split_slash ''zz'' = [''zz''] \<and> \<not> isnumeric ''zz'' \<and> getattr cpython ab_entry ''zz'' = None"
    by code_simp
  have r: "reduce_getitem (VDict ?dd) [] = Inr (VDict ?dd)" by simp
  note t1 = query_failing_step_raises [where path = "PStr ''k/5''" and x = "''k''" and xs = "[''5'']" and s = "''k/5''"
      and rt = cpython and self = ab_entry and v = "VStr ''ab''" and dd = "?dd" and qs = "[]" and p = "Idx 5"
      and ps = "[]" and u = "VStr ''ab''" and t = "''ab''" and i = 5 and dk = "?dd" and k = "''x''"
      and d = "VStr ''X''" and e = IndexError]
  from t1 [THEN conjunct1] h1
  have c1: "query cpython ab_entry (PStr ''k/5'') (VStr ''X'') = Inl IndexError" by simp
  note t2 = query_failing_step_raises [where path = "PStr ''entries/zz''" and x = "''entries''" and xs = "[''zz'']" and s = "''entries/zz''"
      and rt = cpython and self = ab_entry and v = "VDict ?dd" and dd = "?dd" and qs = "[]" and p = "Key ''zz''"
      and ps = "[]" and u = "VDict ?dd" and t = "''ab''" and i = 5 and dk = "?dd" and k = "''zz''"
      and d = "VStr ''X''" and e = KeyError]
  from t2 [THEN conjunct1] h2 r
  have c2: "query cpython ab_entry (PStr ''entries/zz'') (VStr ''X'') = Inl KeyError" by simp
  note t3 = query_failing_step_raises [where path = "PStr ''k/x''" and x = "''k''" and xs = "[''x'']" and s = "''k/x''"
      and rt = cpython and self = ab_entry and v = "VStr ''ab''" and dd = "?dd" and qs = "[]" and p = "Key ''x''"
      and ps = "[]" and u = "VStr ''ab''" and t = "''ab''" and i = 5 and dk = "?dd" and k = "''x''"
      and d = "VStr ''X''" and e = TypeError]
  from t3 [THEN conjunct1] h1 h3
  have c3: "query cpython ab_entry (PStr ''k/x'') (VStr ''X'') = Inl TypeError" by simp
  note t4 = query_failing_step_raises [where path = "PStr ''zz''" and x = "''zz''" and xs = "[]" and s = "''zz''"
      and rt = cpython and self = ab_entry and v = "VStr ''ab''" and dd = "?dd" and qs = "[]" and p = "Key ''x''"
      and ps = "[]" and u = "VStr ''ab''" and t = "''ab''" and i = 5 and dk = "?dd" and k = "''x''"
      and d = "VStr ''X''" and e = TypeError]
  from t4 [THEN conjunct2, THEN conjunct1] h1 h2 h4
  have c4: "query cpython ab_entry (PStr ''zz'') (VStr ''X'') = Inr (VStr ''X'')" by simp
  have h5: "too_long cpython (replicate 4300 (CHR ''0'') @ dec 5)" by (rule too_long_zeros)
  note t5 = query_failing_step_raises [where path = "PList [''k'', replicate 4300 (CHR ''0'') @ dec 5]"
      and x = "''k''" and xs = "[replicate 4300 (CHR ''0'') @ dec 5]" and rt = cpython and self = ab_entry
      and d = "VStr ''X''"]
  from t5 [THEN conjunct2, THEN conjunct2, THEN conjunct2, THEN conjunct2, THEN conjunct1] h5
  have c5: "query cpython ab_entry (PList [''k'', replicate 4300 (CHR ''0'') @ dec 5]) (VStr ''X'') =
      Inl ValueError" by simp
  from h1 h2 h3 h4 c1 c2 c3 c4 h5 c5 show ?thesis by blast
qed

end
